theory Spec2Isabelle
  imports Main "HOL-Library.Word" "HOL-Library.Sublist" "HOL-Library.AList"
begin

section \<open>Data model\<close>

type_synonym uint64 = "64 word"

text \<open>
  \<^verbatim>\<open>type migrationType string\<close> with the two constants of gomigrate.go. The type is a
  string type, so a value other than the two constants can reach \<open>ApplyMigration\<close>.
\<close>

type_synonym migrationType = string

definition migrationTableName :: string where
  "migrationTableName = ''gomigrate''"

definition upMigration :: migrationType where
  "upMigration = ''up''"

definition downMigration :: migrationType where
  "downMigration = ''down''"

text \<open>Migration statuses (\<^verbatim>\<open>iota\<close> constants of migration.go); the field itself is an \<^verbatim>\<open>int\<close>.\<close>

definition Inactive :: int where
  "Inactive = 0"

definition Active :: int where
  "Active = 1"

record Migration =
  ID :: uint64
  Name :: string
  Status :: int
  Up :: string
  Down :: string
  Source :: string

text \<open>
  Every error value the package returns or passes through. \<open>InvalidMigrationFile\<close>,
  \<open>InvalidMigrationPair\<close>, \<open>InvalidMigrationType\<close> and \<open>ErrDuplicateMigration\<close> are the
  variables of gomigrate.go; \<open>ErrInvalidMigrationPair\<close> is the one migration.go returns
  (its declaration is not among the sources). \<open>ErrNoRows\<close> is \<^verbatim>\<open>sql.ErrNoRows\<close>,
  \<open>DriverError\<close> any other error of the database capability, \<open>IOError\<close> an error of the
  filesystem capability and \<open>GlobError\<close> the \<^verbatim>\<open>fmt.Errorf\<close> wrapping of a globbing error.
\<close>

datatype error =
    InvalidMigrationFile
  | InvalidMigrationPair
  | ErrInvalidMigrationPair
  | InvalidMigrationType
  | ErrDuplicateMigration
  | ErrInvalidMigration uint64 string string
  | ErrNoRows
  | DriverError string
  | IOError string
  | GlobError error

text \<open>
  A Go call either returns, panics (here: an index out of range) or ends the process
  (\<^verbatim>\<open>os.Exit\<close> inside the standard logger's \<^verbatim>\<open>Fatalf\<close>).
\<close>

datatype 'a outcome = Returns 'a | Panics | Exits

section \<open>Validation (migration.go)\<close>

definition Validate :: "Migration \<Rightarrow> error option" where
  "Validate m =
     (if ID m = 0 then Some (ErrInvalidMigration (ID m) (Name m) ''Id can't be zero'')
      else if Name m = [] then Some (ErrInvalidMigration (ID m) (Name m) ''Name can't be empty'')
      else None)"

section \<open>The strings package, as far as the MySQL adapter uses it\<close>

text \<open>
  \<^verbatim>\<open>strings.HasPrefix\<close>, \<^verbatim>\<open>strings.Index\<close>, \<^verbatim>\<open>strings.SplitN\<close> and \<^verbatim>\<open>strings.Split\<close> work on
  bytes when the separator is not empty and are written out. \<^verbatim>\<open>strings.TrimSpace\<close>,
  \<^verbatim>\<open>strconv.Unquote\<close> and the empty-separator case of \<^verbatim>\<open>strings.Split\<close> (which cuts the
  text into UTF-8 sequences) depend on Unicode tables and on Go's literal syntax; they are
  functions of the standard library, taken as parameters.
\<close>

record stdlib =
  TrimSpace :: "string \<Rightarrow> string"
  Unquote :: "string \<Rightarrow> string option"
  explode :: "string \<Rightarrow> string list"

definition HasPrefix :: "string \<Rightarrow> string \<Rightarrow> bool" where
  "HasPrefix s p = prefix p s"

text \<open>\<^verbatim>\<open>strings.Index\<close>: the position of the first occurrence, \<open>None\<close> for Go's \<open>-1\<close>.\<close>

fun Index :: "string \<Rightarrow> string \<Rightarrow> nat option" where
  "Index [] sep = (if sep = [] then Some 0 else None)"
| "Index (c # s) sep =
     (if prefix sep (c # s) then Some 0 else map_option Suc (Index s sep))"

text \<open>
  The loop of \<^verbatim>\<open>genSplit\<close> for a non-empty separator: at most \<open>k\<close> cuts, each at the first
  occurrence of the separator in what is left; the rest is the last piece.
\<close>

fun genSplit :: "nat \<Rightarrow> string \<Rightarrow> string \<Rightarrow> string list" where
  "genSplit 0 s sep = [s]"
| "genSplit (Suc k) s sep =
     (case Index s sep of
        None \<Rightarrow> [s]
      | Some m \<Rightarrow> take m s # genSplit k (drop (m + length sep) s) sep)"

text \<open>
  \<^verbatim>\<open>strings.SplitN(s, sep, 2)\<close> for a non-empty separator: two result slots, so one cut
  (Go lowers the slot count to \<^verbatim>\<open>len(s)+1\<close>, and a text shorter than one byte has no cut).
\<close>

definition SplitN2 :: "string \<Rightarrow> string \<Rightarrow> string list" where
  "SplitN2 s sep = genSplit (min 1 (length s)) s sep"

text \<open>
  \<^verbatim>\<open>strings.Split(s, sep)\<close>: Go allots \<^verbatim>\<open>Count(s, sep) + 1\<close> slots, at most \<^verbatim>\<open>len(s)+1\<close>,
  and the loop ends at the first miss, so \<open>length s\<close> cuts are never exhausted.
\<close>

definition Split :: "stdlib \<Rightarrow> string \<Rightarrow> string \<Rightarrow> string list" where
  "Split lib s sep = (if sep = [] then explode lib s else genSplit (length s) s sep)"

text \<open>\<^verbatim>\<open>strings.Join\<close>.\<close>

fun Join :: "string list \<Rightarrow> string \<Rightarrow> string" where
  "Join [] sep = []"
| "Join [p] sep = p"
| "Join (p # q # ps) sep = p @ sep @ Join (q # ps) sep"

section \<open>Dialect adapters\<close>

text \<open>The interface \<^verbatim>\<open>Migratable\<close>: five SQL texts and the splitting function.\<close>

record Migratable =
  SelectMigrationTableSql :: string
  CreateMigrationTableSql :: string
  GetMigrationSql :: string
  MigrationLogInsertSql :: string
  MigrationLogDeleteSql :: string
  GetMigrationCommands :: "string \<Rightarrow> string list"

definition Postgres :: Migratable where
  "Postgres = \<lparr>
     SelectMigrationTableSql = ''SELECT tablename FROM pg_catalog.pg_tables WHERE tablename = $1'',
     CreateMigrationTableSql = ''CREATE TABLE gomigrate (\<newline>                  id           SERIAL       PRIMARY KEY,\<newline>                  migration_id BIGINT       UNIQUE NOT NULL\<newline>                )'',
     GetMigrationSql = ''SELECT migration_id FROM gomigrate WHERE migration_id = $1'',
     MigrationLogInsertSql = ''INSERT INTO gomigrate (migration_id) values ($1)'',
     MigrationLogDeleteSql = ''DELETE FROM gomigrate WHERE migration_id = $1'',
     GetMigrationCommands = (\<lambda>sql. [sql]) \<rparr>"

text \<open>
  \<^verbatim>\<open>Mysql.GetMigrationCommands\<close> (the same body as \<^verbatim>\<open>MySQL.GetMigrationCommands\<close> of
  db.go). \<^verbatim>\<open>contentSplit\<close> always has a first element; the model returns the source's
  result in each of the list's shapes.
\<close>

definition Mysql_GetMigrationCommands :: "stdlib \<Rightarrow> string \<Rightarrow> string list" where
  "Mysql_GetMigrationCommands lib sql =
     (if HasPrefix sql ''delimiter '' then
        (let delimiterOffset = length ''delimiter '';
             contentSplit = SplitN2 (drop delimiterOffset sql) ''\<newline>'';
             delimiter = TrimSpace lib (hd contentSplit);
             sql' = (if length contentSplit > 1 then contentSplit ! 1 else []);
             delimiter' = (case Unquote lib delimiter of
                             Some delimiterUnquoted \<Rightarrow> delimiterUnquoted
                           | None \<Rightarrow> delimiter)
         in Split lib sql' delimiter')
      else Split lib sql '';'')"

definition Mysql :: "stdlib \<Rightarrow> Migratable" where
  "Mysql lib = \<lparr>
     SelectMigrationTableSql = ''SELECT table_name FROM information_schema.tables WHERE table_name = ? AND table_schema = (SELECT DATABASE())'',
     CreateMigrationTableSql = ''CREATE TABLE gomigrate (\<newline>                  id           INT          NOT NULL AUTO_INCREMENT,\<newline>                  migration_id BIGINT       NOT NULL UNIQUE,\<newline>                  PRIMARY KEY (id)\<newline>                )'',
     GetMigrationSql = ''SELECT migration_id FROM gomigrate WHERE migration_id = ?'',
     MigrationLogInsertSql = ''INSERT INTO gomigrate (migration_id) values (?)'',
     MigrationLogDeleteSql = ''DELETE FROM gomigrate WHERE migration_id = ?'',
     GetMigrationCommands = Mysql_GetMigrationCommands lib \<rparr>"

definition Mariadb :: "stdlib \<Rightarrow> Migratable" where
  "Mariadb lib = Mysql lib"

definition Sqlite3 :: Migratable where
  "Sqlite3 = \<lparr>
     SelectMigrationTableSql = ''SELECT name FROM sqlite_master WHERE type = 'table' AND name = ?'',
     CreateMigrationTableSql = ''CREATE TABLE gomigrate (\<newline>  id INTEGER PRIMARY KEY,\<newline>  migration_id INTEGER NOT NULL UNIQUE\<newline>)'',
     GetMigrationSql = ''SELECT migration_id FROM gomigrate WHERE migration_id = ?'',
     MigrationLogInsertSql = ''INSERT INTO gomigrate (migration_id) values (?)'',
     MigrationLogDeleteSql = ''DELETE FROM gomigrate WHERE migration_id = ?'',
     GetMigrationCommands = (\<lambda>sql. [sql]) \<rparr>"

text \<open>
  The two adapters that only db.go declares (there the methods are spelled \<^verbatim>\<open>...SQL\<close>):
  \<^verbatim>\<open>CockroachDB\<close> embeds \<^verbatim>\<open>Postgres\<close>, and \<^verbatim>\<open>MsSQL\<close>.
\<close>

definition CockroachDB :: Migratable where
  "CockroachDB = Postgres"

definition MsSQL :: Migratable where
  "MsSQL = \<lparr>
     SelectMigrationTableSql = ''SELECT table_name FROM information_schema.tables WHERE table_name = ?'',
     CreateMigrationTableSql = ''CREATE TABLE gomigrate (\<newline>                  id           INT          NOT NULL IDENTITY,\<newline>                  migration_id BIGINT       NOT NULL UNIQUE,\<newline>                  PRIMARY KEY (id)\<newline>                )'',
     GetMigrationSql = ''SELECT migration_id FROM gomigrate WHERE migration_id = ?'',
     MigrationLogInsertSql = ''INSERT INTO gomigrate (migration_id) values (?)'',
     MigrationLogDeleteSql = ''DELETE FROM gomigrate WHERE migration_id = ?'',
     GetMigrationCommands = (\<lambda>sql. [sql]) \<rparr>"

section \<open>The database and logging capabilities\<close>

text \<open>
  The calls the Migrator makes on \<^verbatim>\<open>*sql.DB\<close> and on the transaction it opens, with the
  statement text and the positional arguments. \<open>QueryRow\<close> stands for the query together
  with the \<^verbatim>\<open>Scan\<close> of its row.
\<close>

datatype arg = ArgString string | ArgID uint64

datatype call =
    QueryRow string "arg list"
  | DBExec string "arg list"
  | Begin
  | TxExec string "arg list"
  | Commit
  | Rollback

text \<open>
  What the database answers: the error (\<open>None\<close> for \<^verbatim>\<open>nil\<close>) and, for an \<^verbatim>\<open>Exec\<close>, the
  \<^verbatim>\<open>sql.Result\<close> (\<open>None\<close> for a nil result), given by what its \<^verbatim>\<open>RowsAffected\<close> returns.
\<close>

datatype reply = Reply (err: "error option") (result: "(error + int) option")

text \<open>
  The database is outside the package: any function from the calls made so far and the
  present call to an answer. The history grows with every call, so the answers of any
  one run, whatever they depend on, are those of such a function.
\<close>

type_synonym database = "call list \<Rightarrow> call \<Rightarrow> reply"

text \<open>
  The \<^verbatim>\<open>Logger\<close> interface. Lines are recorded by method and format string (the
  arguments are not kept). The one thing an implementation decides for the control flow
  is whether \<^verbatim>\<open>Fatalf\<close> comes back: that of \<^verbatim>\<open>*log.Logger\<close> (\<open>StdLogger\<close>) ends the process,
  that of another implementation may or may not.
\<close>

datatype logline = Print string | Printf string | Fatalf string

datatype logger = StdLogger | CustomLogger bool

fun fatalf_returns :: "logger \<Rightarrow> bool" where
  "fatalf_returns StdLogger = False"
| "fatalf_returns (CustomLogger b) = b"

text \<open>The filesystem capability (\<^verbatim>\<open>filepath.Glob\<close>, \<^verbatim>\<open>ioutil.ReadFile\<close>) and its use.\<close>

record filesystem =
  Glob :: "string \<Rightarrow> error + string list"
  ReadFile :: "string \<Rightarrow> error + string"

datatype fsop = GlobOp string | ReadFileOp string

text \<open>What a run leaves to be observed: database calls, filesystem accesses, log lines.\<close>

record world =
  calls :: "call list"
  fsops :: "fsop list"
  loglines :: "logline list"

definition logw :: "logline \<Rightarrow> world \<Rightarrow> world" where
  "logw l w = w\<lparr>loglines := loglines w @ [l]\<rparr>"

section \<open>The Migrator (gomigrate.go)\<close>

text \<open>
  \<^verbatim>\<open>migrations map[uint64]*Migration\<close> is a list of entries with \<open>map_of\<close> as the lookup
  and \<open>AList.update\<close> as the store; a \<^verbatim>\<open>*Migration\<close> taken from the map is represented
  by its key, and a write through the pointer is a store under that key.
\<close>

record Migrator =
  DB :: database
  MigrationsPath :: string
  dbAdapter :: Migratable
  migrations :: "(uint64 \<times> Migration) list"
  Logger :: logger

definition db_call :: "Migrator \<Rightarrow> call \<Rightarrow> world \<Rightarrow> reply \<times> world" where
  "db_call m c w = (DB m (calls w) c, w\<lparr>calls := calls w @ [c]\<rparr>)"

definition store :: "uint64 \<Rightarrow> Migration \<Rightarrow> Migrator \<Rightarrow> Migrator" where
  "store k x m = m\<lparr>migrations := AList.update k x (migrations m)\<rparr>"

definition MigrationTableExists :: "Migrator \<Rightarrow> world \<Rightarrow> (bool \<times> error option) \<times> world" where
  "MigrationTableExists m w =
     (let (r, w1) = db_call m (QueryRow (SelectMigrationTableSql (dbAdapter m))
                                 [ArgString migrationTableName]) w
      in if err r = Some ErrNoRows then
           ((False, None), logw (Print ''Migrations table not found'') w1)
         else case err r of
           Some e \<Rightarrow> ((False, Some e), logw (Printf ''Error checking for migration table: %v'') w1)
         | None \<Rightarrow> ((True, None), logw (Print ''Migrations table found'') w1))"

definition CreateMigrationsTable :: "Migrator \<Rightarrow> world \<Rightarrow> error option outcome \<times> world" where
  "CreateMigrationsTable m w =
     (let (r, w1) = db_call m (DBExec (CreateMigrationTableSql (dbAdapter m)) []) w
      in case err r of
           Some e \<Rightarrow>
             (let w2 = logw (Fatalf ''Error creating migrations table: %v'') w1
              in if fatalf_returns (Logger m)
                 then (Returns None, logw (Printf ''Created migrations table: %s'') w2)
                 else (Exits, w2))
         | None \<Rightarrow> (Returns None, logw (Printf ''Created migrations table: %s'') w1))"

text \<open>
  \<^verbatim>\<open>getMigrationStatuses\<close> ranges over the map, in an order the Go runtime chooses anew
  each time: \<open>ks\<close> is that order, as the keys visited. A key with no entry is passed
  over, since a range yields the keys of the map only.
\<close>

fun getMigrationStatuses :: "uint64 list \<Rightarrow> Migrator \<Rightarrow> world \<Rightarrow> error option \<times> Migrator \<times> world" where
  "getMigrationStatuses [] m w = (None, m, w)"
| "getMigrationStatuses (k # ks) m w =
     (case map_of (migrations m) k of
        None \<Rightarrow> getMigrationStatuses ks m w
      | Some migration \<Rightarrow>
          (let (r, w1) = db_call m (QueryRow (GetMigrationSql (dbAdapter m)) [ArgID (ID migration)]) w
           in if err r = Some ErrNoRows then getMigrationStatuses ks m w1
              else case err r of
                Some e \<Rightarrow> (Some e, m, logw (Printf ''Error getting migration status for %s: %v'') w1)
              | None \<Rightarrow> getMigrationStatuses ks (store k (migration\<lparr>Status := Active\<rparr>) m) w1))"

text \<open>
  Modelled from the spec: the ordering of \<^verbatim>\<open>uint64slice\<close>, the type \<open>Migrations\<close> sorts the
  ids with and whose declaration is not among the sources; the spec has the ascending
  numeric order of the ids.
\<close>

definition sorted_ids :: "Migrator \<Rightarrow> uint64 list" where
  "sorted_ids m = sort (map fst (migrations m))"

text \<open>
  \<^verbatim>\<open>Migrations(status)\<close>: the keys, sorted, then those whose migration has the status
  (all of them for \<open>-1\<close>).
\<close>

definition Migrations :: "Migrator \<Rightarrow> int \<Rightarrow> uint64 list" where
  "Migrations m status =
     filter (\<lambda>id. case map_of (migrations m) id of
                     None \<Rightarrow> False
                   | Some migration \<Rightarrow> status = - 1 \<or> Status migration = status)
            (sorted_ids m)"

text \<open>
  The transaction's rollback after a failure \<open>e\<close>: the rollback's own error is returned
  in its place.
\<close>

definition rollback_after :: "Migrator \<Rightarrow> error \<Rightarrow> world \<Rightarrow> error option \<times> world" where
  "rollback_after m e w =
     (let (rb, w1) = db_call m Rollback w
      in case err rb of
           Some rollbackErr \<Rightarrow> (Some rollbackErr, logw (Printf ''Error rolling back transaction: %v'') w1)
         | None \<Rightarrow> (Some e, w1))"

text \<open>The loop over the commands of one script, inside the open transaction.\<close>

fun exec_commands :: "Migrator \<Rightarrow> string list \<Rightarrow> world \<Rightarrow> error option \<times> world" where
  "exec_commands m [] w = (None, w)"
| "exec_commands m (cmd # cmds) w =
     (let (r, w1) = db_call m (TxExec cmd []) w
      in case err r of
           Some e \<Rightarrow> rollback_after m e (logw (Printf ''Error executing migration: %v'') w1)
         | None \<Rightarrow>
             (case result r of
                None \<Rightarrow> exec_commands m cmds w1
              | Some (Inl e) \<Rightarrow> rollback_after m e (logw (Printf ''Error getting rows affected: %v'') w1)
              | Some (Inr rowsAffected) \<Rightarrow>
                  exec_commands m cmds (logw (Printf ''Rows affected: %v'') w1)))"

text \<open>
  The script selection at the head of \<open>ApplyMigration\<close>: \<open>None\<close> is the branch that
  returns \<open>InvalidMigrationType\<close>.
\<close>

definition select_script :: "Migration \<Rightarrow> migrationType \<Rightarrow> string option" where
  "select_script migration mType =
     (if mType = upMigration \<and> Up migration \<noteq> [] then Some (Up migration)
      else if mType = downMigration \<and> Down migration \<noteq> [] then Some (Down migration)
      else None)"

text \<open>The bookkeeping statement and the commit, after all commands went through.\<close>

definition log_and_commit ::
    "Migrator \<Rightarrow> Migration \<Rightarrow> migrationType \<Rightarrow> world \<Rightarrow> error option \<times> Migration \<times> world" where
  "log_and_commit m migration mType w =
     (let (l, w1) =
            (if mType = upMigration
             then db_call m (TxExec (MigrationLogInsertSql (dbAdapter m)) [ArgID (ID migration)]) w
             else db_call m (TxExec (MigrationLogDeleteSql (dbAdapter m)) [ArgID (ID migration)]) w)
      in case err l of
           Some e \<Rightarrow>
             (let (re, w2) = rollback_after m e (logw (Printf ''Error logging migration: %v'') w1)
              in (re, migration, w2))
         | None \<Rightarrow>
             (let (c, w2) = db_call m Commit w1
              in case err c of
                   Some e \<Rightarrow> (Some e, migration, logw (Printf ''Error commiting transaction: %v'') w2)
                 | None \<Rightarrow>
                     (None,
                      migration\<lparr>Status := (if mType = upMigration then Active else Inactive)\<rparr>,
                      w2)))"

definition ApplyMigration ::
    "Migrator \<Rightarrow> Migration \<Rightarrow> migrationType \<Rightarrow> world \<Rightarrow> error option \<times> Migration \<times> world" where
  "ApplyMigration m migration mType w =
     (let w0 = logw (Printf ''Applying migration: %s'') w
      in case select_script migration mType of
           None \<Rightarrow> (Some InvalidMigrationType, migration, w0)
         | Some sql \<Rightarrow>
             (let (b, w1) = db_call m Begin w0
              in case err b of
                   Some e \<Rightarrow> (Some e, migration, logw (Printf ''Error opening transaction: %v'') w1)
                 | None \<Rightarrow>
                     (let commands = GetMigrationCommands (dbAdapter m) sql;
                          (r, w2) = exec_commands m commands w1
                      in case r of
                           Some e \<Rightarrow> (Some e, migration, w2)
                         | None \<Rightarrow> log_and_commit m migration mType w2)))"

text \<open>
  The loop of \<open>Migrate\<close> over the pointers that \<^verbatim>\<open>Migrations(Inactive)\<close> returned; a key
  always has its entry there.
\<close>

fun Migrate_loop :: "uint64 list \<Rightarrow> Migrator \<Rightarrow> world \<Rightarrow> error option \<times> Migrator \<times> world" where
  "Migrate_loop [] m w = (None, m, w)"
| "Migrate_loop (k # ks) m w =
     (case map_of (migrations m) k of
        None \<Rightarrow> Migrate_loop ks m w
      | Some migration \<Rightarrow>
          (let (e, migration', w1) = ApplyMigration m migration upMigration w
           in case e of
                Some e' \<Rightarrow> (Some e', store k migration' m, w1)
              | None \<Rightarrow> Migrate_loop ks (store k migration' m) w1))"

text \<open>
  \<open>Migrate\<close>, in two parts: up to the status synchronisation (\<open>Migrate_sync\<close>; \<open>ks\<close> is
  the order of the range there), then the loop over \<^verbatim>\<open>Migrations(Inactive)\<close>.
\<close>

definition Migrate_sync :: "uint64 list \<Rightarrow> Migrator \<Rightarrow> world \<Rightarrow> error option outcome \<times> Migrator \<times> world" where
  "Migrate_sync ks m w =
     (let ((tableExists, e), w1) = MigrationTableExists m w
      in case e of
           Some e' \<Rightarrow> (Returns (Some e'), m, w1)
         | None \<Rightarrow>
             (let (c, w2) = (if \<not> tableExists then CreateMigrationsTable m w1
                             else (Returns None, w1))
              in case c of
                   Panics \<Rightarrow> (Panics, m, w2)
                 | Exits \<Rightarrow> (Exits, m, w2)
                 | Returns (Some e') \<Rightarrow> (Returns (Some e'), m, w2)
                 | Returns None \<Rightarrow>
                     (let (s, m1, w3) = getMigrationStatuses ks m w2
                      in (Returns s, m1, w3))))"

definition Migrate :: "uint64 list \<Rightarrow> Migrator \<Rightarrow> world \<Rightarrow> error option outcome \<times> Migrator \<times> world" where
  "Migrate ks m w =
     (case Migrate_sync ks m w of
        (Returns None, m1, w1) \<Rightarrow>
          (let (r, m2, w2) = Migrate_loop (Migrations m1 Inactive) m1 w1
           in (Returns r, m2, w2))
      | (stopped, m1, w1) \<Rightarrow> (stopped, m1, w1))"

text \<open>
  The loop of \<open>RollbackN\<close>: \<open>i\<close> counts down from the last index until it equals
  \<open>lastMigration\<close>; indexing the slice outside \<open>0 \<le> i < len\<close> panics.
\<close>

function RollbackN_loop ::
    "uint64 list \<Rightarrow> int \<Rightarrow> int \<Rightarrow> Migrator \<Rightarrow> world \<Rightarrow> error option outcome \<times> Migrator \<times> world" where
  "RollbackN_loop migs lastMigration i m w =
     (if i = lastMigration then (Returns None, m, w)
      else if i < 0 \<or> int (length migs) \<le> i then (Panics, m, w)
      else
        (let k = migs ! nat i
         in case map_of (migrations m) k of
              None \<Rightarrow> RollbackN_loop migs lastMigration (i - 1) m w
            | Some migration \<Rightarrow>
                (let (e, migration', w1) = ApplyMigration m migration downMigration w
                 in case e of
                      Some e' \<Rightarrow> (Returns (Some e'), store k migration' m, w1)
                    | None \<Rightarrow> RollbackN_loop migs lastMigration (i - 1) (store k migration' m) w1)))"
  by pat_completeness auto
termination
  by (relation "measure (\<lambda>(migs, lastMigration, i, m, w). nat (i + 1))") auto

declare RollbackN_loop.simps [simp del]

text \<open>
  \<open>RollbackN\<close>. \<open>n\<close> is a Go \<^verbatim>\<open>int\<close> (64 bits): the subtraction wraps around in two's
  complement.
\<close>

definition RollbackN :: "int \<Rightarrow> uint64 list \<Rightarrow> Migrator \<Rightarrow> world \<Rightarrow> error option outcome \<times> Migrator \<times> world" where
  "RollbackN n ks m w =
     (let (s, m1, w1) = getMigrationStatuses ks m w
      in case s of
           Some e \<Rightarrow> (Returns (Some e), m1, w1)
         | None \<Rightarrow>
             (let migs = Migrations m1 Active
              in if length migs = 0 then (Returns None, m1, w1)
                 else
                   (let lastMigration = signed_take_bit 63 (int (length migs) - 1 - n)
                    in RollbackN_loop migs lastMigration (int (length migs) - 1) m1 w1)))"

definition Rollback_last :: "uint64 list \<Rightarrow> Migrator \<Rightarrow> world \<Rightarrow> error option outcome \<times> Migrator \<times> world" where
  "Rollback_last ks m w = RollbackN 1 ks m w"

definition RollbackAll :: "uint64 list \<Rightarrow> Migrator \<Rightarrow> world \<Rightarrow> error option outcome \<times> Migrator \<times> world" where
  "RollbackAll ks m w = RollbackN (int (length (Migrations m Active))) ks m w"

section \<open>Loading migrations from a directory (migration.go)\<close>

text \<open>
  \<^verbatim>\<open>parseMigrationPath\<close> is called by \<open>MigrationsFromPath\<close> but declared in a file that is
  not among the sources: the loader takes it as the parameter \<open>parse\<close>, returning the
  number, the direction and the name, or an error.
\<close>

type_synonym parser = "string \<Rightarrow> error + (uint64 \<times> migrationType \<times> string)"

text \<open>
  Modelled from the spec: \<^verbatim>\<open>parseMigrationPath\<close>, which is missing from the sources. The
  spec has the file name match \<^verbatim>\<open>{id}_{name}_{up|down}.sql\<close>, \<open>id\<close> a non-zero unsigned
  integer; a file that does not match is passed over. This instance serves the sample
  directories below; the loader itself is stated for any \<open>parse\<close>.
\<close>

definition basename :: "string \<Rightarrow> string" where
  "basename path = rev (takeWhile (\<lambda>c. c \<noteq> CHR ''/'') (rev path))"

definition strip_suffix :: "string \<Rightarrow> string \<Rightarrow> string option" where
  "strip_suffix suf s =
     (if prefix (rev suf) (rev s) then Some (take (length s - length suf) s) else None)"

definition is_digit :: "char \<Rightarrow> bool" where
  "is_digit c = (48 \<le> (of_char c :: nat) \<and> (of_char c :: nat) \<le> 57)"

definition digits_value :: "string \<Rightarrow> nat" where
  "digits_value ds = foldl (\<lambda>n c. 10 * n + (of_char c - 48)) 0 ds"

definition parse_stem :: "string \<Rightarrow> migrationType \<Rightarrow> error + (uint64 \<times> migrationType \<times> string)" where
  "parse_stem stem t =
     (let num = takeWhile is_digit stem
      in case dropWhile is_digit stem of
           [] \<Rightarrow> Inl InvalidMigrationFile
         | c # name \<Rightarrow>
             if num = [] \<or> c \<noteq> CHR ''_'' \<or> name = []
                \<or> digits_value num = 0 \<or> 2 ^ 64 \<le> digits_value num
             then Inl InvalidMigrationFile
             else Inr (of_nat (digits_value num), t, name))"

definition parseMigrationPath :: parser where
  "parseMigrationPath path =
     (case strip_suffix ''_up.sql'' (basename path) of
        Some stem \<Rightarrow> parse_stem stem upMigration
      | None \<Rightarrow>
          (case strip_suffix ''_down.sql'' (basename path) of
             Some stem \<Rightarrow> parse_stem stem downMigration
           | None \<Rightarrow> Inl InvalidMigrationFile))"


text \<open>
  The path normalisation: \<^verbatim>\<open>path[pathLength-1]\<close> is an indexing of the byte slice, which
  panics outside \<open>0 \<le> i < len\<close>.
\<close>

definition last_index :: "string \<Rightarrow> int" where
  "last_index path = int (length path) - 1"

definition in_bounds :: "string \<Rightarrow> int \<Rightarrow> bool" where
  "in_bounds path i = (0 \<le> i \<and> i < int (length path))"

definition normalize_path :: "string \<Rightarrow> string outcome" where
  "normalize_path path =
     (if \<not> in_bounds path (last_index path) then Panics
      else if path ! nat (last_index path) \<noteq> CHR ''/'' then Returns (path @ ''/'')
      else Returns path)"

text \<open>The loop over the matches of the glob.\<close>

fun load_files ::
    "parser \<Rightarrow> filesystem \<Rightarrow> string list \<Rightarrow> (uint64 \<times> Migration) list \<Rightarrow> world
      \<Rightarrow> (error + (uint64 \<times> Migration) list) \<times> world" where
  "load_files parse fs [] migs w = (Inr migs, w)"
| "load_files parse fs (match # matches) migs w =
     (case parse match of
        Inl e \<Rightarrow> load_files parse fs matches migs (logw (Printf ''Invalid migration file found: %s\<newline>'') w)
      | Inr (num, migrationType, name) \<Rightarrow>
          (let w1 = logw (Printf ''Migration file found: %s\<newline>'') w;
               w2 = w1\<lparr>fsops := fsops w1 @ [ReadFileOp match]\<rparr>
           in case ReadFile fs match of
                Inl e \<Rightarrow> (Inl e, logw (Printf ''Error reading migration: %s'') w2)
              | Inr sql \<Rightarrow>
                  (case map_of migs num of
                     Some m \<Rightarrow>
                       (let m1 = m\<lparr>Source := Source m @ '' '' @ match\<rparr>;
                            m2 = (if migrationType = upMigration then m1\<lparr>Up := sql\<rparr>
                                  else m1\<lparr>Down := sql\<rparr>)
                        in load_files parse fs matches (AList.update num m2 migs) w2)
                   | None \<Rightarrow>
                       (let migration = \<lparr>ID = num, Name = name, Status = Inactive,
                                          Up = [], Down = [], Source = match\<rparr>;
                            migration' = (if migrationType = upMigration then migration\<lparr>Up := sql\<rparr>
                                          else migration\<lparr>Down := sql\<rparr>)
                        in load_files parse fs matches (AList.update num migration' migs) w2))))"

text \<open>
  The validation loop and the loop that collects the values; each ranges over the map
  in an order of its own (\<open>ks\<close>, the keys as the runtime yields them).
\<close>

fun validate_all :: "uint64 list \<Rightarrow> (uint64 \<times> Migration) list \<Rightarrow> world \<Rightarrow> error option \<times> world" where
  "validate_all [] migs w = (None, w)"
| "validate_all (k # ks) migs w =
     (case map_of migs k of
        None \<Rightarrow> validate_all ks migs w
      | Some migration \<Rightarrow>
          (case Validate migration of
             Some e \<Rightarrow> (Some ErrInvalidMigrationPair,
                        logw (Printf ''Invalid migration from files: %s\<newline>'') w)
           | None \<Rightarrow> validate_all ks migs w))"

fun collect_values :: "uint64 list \<Rightarrow> (uint64 \<times> Migration) list \<Rightarrow> Migration list" where
  "collect_values [] migs = []"
| "collect_values (k # ks) migs =
     (case map_of migs k of
        None \<Rightarrow> collect_values ks migs
      | Some migration \<Rightarrow> migration # collect_values ks migs)"

definition MigrationsFromPath ::
    "parser \<Rightarrow> filesystem \<Rightarrow> uint64 list \<Rightarrow> uint64 list \<Rightarrow> string \<Rightarrow> world
      \<Rightarrow> (error + Migration list) outcome \<times> world" where
  "MigrationsFromPath parse fs ks1 ks2 migrationsPath w =
     (case normalize_path migrationsPath of
        Panics \<Rightarrow> (Panics, w)
      | Exits \<Rightarrow> (Exits, w)
      | Returns path \<Rightarrow>
          (let w1 = logw (Printf ''Migrations path: %s'') w;
               pathGlob = path @ ''*'';
               w2 = w1\<lparr>fsops := fsops w1 @ [GlobOp pathGlob]\<rparr>
           in case Glob fs pathGlob of
                Inl e \<Rightarrow> (Returns (Inl (GlobError e)), w2)
              | Inr matches \<Rightarrow>
                  (case load_files parse fs matches [] w2 of
                     (Inl e, w3) \<Rightarrow> (Returns (Inl e), w3)
                   | (Inr migs, w3) \<Rightarrow>
                       (case validate_all ks1 migs w3 of
                          (Some e, w4) \<Rightarrow> (Returns (Inl e), w4)
                        | (None, w4) \<Rightarrow>
                            (Returns (Inr (collect_values ks2 migs)),
                             logw (Printf ''Migrations file pairs found: %v\<newline>'') w4)))))"

section \<open>The constructors (gomigrate.go)\<close>

text \<open>
  The loop of \<open>NewMigratorWithMigrations\<close> over the migrations it is given: the status
  is forced to \<open>Inactive\<close>, the migration validated, and an id already in the map refused.
\<close>

fun add_migrations ::
    "Migration list \<Rightarrow> (uint64 \<times> Migration) list \<Rightarrow> error + (uint64 \<times> Migration) list" where
  "add_migrations [] al = Inr al"
| "add_migrations (m # ms) al =
     (let m' = m\<lparr>Status := Inactive\<rparr>
      in case Validate m' of
           Some e \<Rightarrow> Inl e
         | None \<Rightarrow>
             (case map_of al (ID m') of
                Some other \<Rightarrow> Inl ErrDuplicateMigration
              | None \<Rightarrow> add_migrations ms (AList.update (ID m') m' al)))"

definition NewMigratorWithMigrations ::
    "database \<Rightarrow> Migratable \<Rightarrow> Migration list \<Rightarrow> error + Migrator" where
  "NewMigratorWithMigrations db adapter ms =
     (case add_migrations ms [] of
        Inl e \<Rightarrow> Inl e
      | Inr al \<Rightarrow> Inr \<lparr>DB = db, MigrationsPath = [], dbAdapter = adapter,
                       migrations = al, Logger = StdLogger\<rparr>)"

definition NewMigratorWithLogger ::
    "parser \<Rightarrow> filesystem \<Rightarrow> uint64 list \<Rightarrow> uint64 list \<Rightarrow> database \<Rightarrow> Migratable \<Rightarrow> string
      \<Rightarrow> logger \<Rightarrow> world \<Rightarrow> (error + Migrator) outcome \<times> world" where
  "NewMigratorWithLogger parse fs ks1 ks2 db adapter migrationsPath logger w =
     (case MigrationsFromPath parse fs ks1 ks2 migrationsPath w of
        (Panics, w1) \<Rightarrow> (Panics, w1)
      | (Exits, w1) \<Rightarrow> (Exits, w1)
      | (Returns (Inl e), w1) \<Rightarrow> (Returns (Inl e), w1)
      | (Returns (Inr ms), w1) \<Rightarrow>
          (case NewMigratorWithMigrations db adapter ms of
             Inl e \<Rightarrow> (Returns (Inl e), w1)
           | Inr m \<Rightarrow> (Returns (Inr (m\<lparr>Logger := logger\<rparr>)), w1)))"

definition NewMigrator ::
    "parser \<Rightarrow> filesystem \<Rightarrow> uint64 list \<Rightarrow> uint64 list \<Rightarrow> database \<Rightarrow> Migratable \<Rightarrow> string
      \<Rightarrow> world \<Rightarrow> (error + Migrator) outcome \<times> world" where
  "NewMigrator parse fs ks1 ks2 db adapter migrationsPath w =
     NewMigratorWithLogger parse fs ks1 ks2 db adapter migrationsPath StdLogger w"

section \<open>Notions used in the statements\<close>

text \<open>
  What makes \<open>ApplyMigration\<close> give up on a statement of the script: the error of the
  \<^verbatim>\<open>Exec\<close>, or else the error of \<^verbatim>\<open>RowsAffected\<close> on its result.
\<close>

definition exec_failure :: "reply \<Rightarrow> error option" where
  "exec_failure r =
     (case err r of
        Some e \<Rightarrow> Some e
      | None \<Rightarrow> (case result r of Some (Inl e) \<Rightarrow> Some e | _ \<Rightarrow> None))"

text \<open>
  The error reported after a rollback issued at history \<open>cs\<close> for the failure \<open>e\<close>:
  the rollback's own error when it has one.
\<close>

definition reported :: "Migrator \<Rightarrow> call list \<Rightarrow> error \<Rightarrow> error" where
  "reported m cs e = (case err (DB m cs Rollback) of Some rollbackErr \<Rightarrow> rollbackErr | None \<Rightarrow> e)"

text \<open>The calls \<open>cs\<close>, made one after the other from history \<open>hist\<close>, all go through.\<close>

fun oks :: "Migrator \<Rightarrow> call list \<Rightarrow> call list \<Rightarrow> bool" where
  "oks m hist [] = True"
| "oks m hist (c # cs) = (exec_failure (DB m hist c) = None \<and> oks m (hist @ [c]) cs)"

text \<open>The bookkeeping statement of a direction, and the statements of a script.\<close>

definition bookkeeping :: "Migrator \<Rightarrow> Migration \<Rightarrow> migrationType \<Rightarrow> call" where
  "bookkeeping m x mType =
     (if mType = upMigration then TxExec (MigrationLogInsertSql (dbAdapter m)) [ArgID (ID x)]
      else TxExec (MigrationLogDeleteSql (dbAdapter m)) [ArgID (ID x)])"

definition script_calls :: "Migrator \<Rightarrow> string \<Rightarrow> call list" where
  "script_calls m sql = map (\<lambda>c. TxExec c []) (GetMigrationCommands (dbAdapter m) sql)"

text \<open>The world once \<open>ApplyMigration\<close> has logged its first line and called \<open>Begin\<close>.\<close>

definition begun :: "world \<Rightarrow> world" where
  "begun w = (logw (Printf ''Applying migration: %s'') w)\<lparr>calls := calls w @ [Begin]\<rparr>"

text \<open>The script of the requested direction.\<close>

definition script_of :: "Migration \<Rightarrow> migrationType \<Rightarrow> string" where
  "script_of x mType = (if mType = upMigration then Up x else Down x)"

text \<open>
  The bookkeeping statements among some calls, each with its SQL text and the id it is
  given: these are the \<^verbatim>\<open>Exec\<close> calls on the transaction that carry one id as argument
  (a statement of a script carries no argument).
\<close>

fun bookkept :: "call list \<Rightarrow> (string \<times> uint64) list" where
  "bookkept [] = []"
| "bookkept (TxExec s [ArgID k] # cs) = (s, k) # bookkept cs"
| "bookkept (c # cs) = bookkept cs"

text \<open>The calls that belong to a transaction.\<close>

fun is_tx :: "call \<Rightarrow> bool" where
  "is_tx (QueryRow s a) = False"
| "is_tx (DBExec s a) = False"
| "is_tx c = True"

text \<open>
  The migrations of a Migrator the constructors build: no key twice, and each migration
  under its own id.
\<close>

definition wf_migrations :: "(uint64 \<times> Migration) list \<Rightarrow> bool" where
  "wf_migrations al =
     (distinct (map fst al) \<and> (\<forall>k x. map_of al k = Some x \<longrightarrow> ID x = k))"

definition status_of :: "Migrator \<Rightarrow> uint64 \<Rightarrow> int option" where
  "status_of m k = map_option Status (map_of (migrations m) k)"

text \<open>
  \<open>m'\<close> is \<open>m\<close> after a status synchronisation: the same Migrator, except that some
  migrations have got the status \<open>Active\<close>.
\<close>

definition synced :: "Migrator \<Rightarrow> Migrator \<Rightarrow> bool" where
  "synced m m' =
     (DB m' = DB m \<and> dbAdapter m' = dbAdapter m \<and> Logger m' = Logger m
      \<and> map fst (migrations m') = map fst (migrations m)
      \<and> (\<forall>k. rel_option (\<lambda>x x'. x' = x \<or> x' = x\<lparr>Status := Active\<rparr>)
                (map_of (migrations m) k) (map_of (migrations m') k)))"

text \<open>
  The splitting of the MySQL family in the words of the specification: the first line,
  the text after it, the delimiter a directive line names, and the split.
\<close>

definition first_line :: "string \<Rightarrow> string" where
  "first_line s = takeWhile (\<lambda>c. c \<noteq> CHR ''\<newline>'') s"

definition after_first_line :: "string \<Rightarrow> string" where
  "after_first_line s = drop (Suc (length (first_line s))) s"

definition directive_delimiter :: "stdlib \<Rightarrow> string \<Rightarrow> string" where
  "directive_delimiter lib line =
     (let v = TrimSpace lib (drop (length ''delimiter '') line)
      in case Unquote lib v of Some u \<Rightarrow> u | None \<Rightarrow> v)"

definition split_script :: "stdlib \<Rightarrow> string \<Rightarrow> string list" where
  "split_script lib s =
     (if prefix ''delimiter '' (first_line s)
      then Split lib (after_first_line s) (directive_delimiter lib (first_line s))
      else Split lib s '';'')"

section \<open>Sample inputs\<close>

text \<open>A database that answers each call by its kind alone, with no result value.\<close>

definition db_faults :: "(call \<Rightarrow> error option) \<Rightarrow> database" where
  "db_faults f hist c = Reply (f c) None"

definition users_migration :: Migration where
  "users_migration = \<lparr>ID = 1, Name = ''users'', Status = Inactive,
     Up = ''CREATE TABLE users()'', Down = ''DROP TABLE users'', Source = []\<rparr>"

definition posts_migration :: Migration where
  "posts_migration = \<lparr>ID = 2, Name = ''posts'', Status = Inactive,
     Up = ''CREATE TABLE posts()'', Down = ''DROP TABLE posts'', Source = []\<rparr>"

definition sample_migrator :: "database \<Rightarrow> logger \<Rightarrow> Migrator" where
  "sample_migrator db lg = \<lparr>DB = db, MigrationsPath = [], dbAdapter = Postgres,
     migrations = [(1, users_migration), (2, posts_migration)], Logger = lg\<rparr>"

definition w0 :: world where
  "w0 = \<lparr>calls = [], fsops = [], loglines = []\<rparr>"


definition exec_and_rollback_fail :: "call \<Rightarrow> error option" where
  "exec_and_rollback_fail c =
     (case c of
        TxExec s a \<Rightarrow> Some (DriverError ''syntax error'')
      | Rollback \<Rightarrow> Some (DriverError ''connection lost'')
      | _ \<Rightarrow> None)"

fun bookkeeping_fails :: "call \<Rightarrow> error option" where
  "bookkeeping_fails (TxExec s [ArgID k]) = Some (DriverError ''duplicate key'')"
| "bookkeeping_fails c = None"

definition commit_fails :: "call \<Rightarrow> error option" where
  "commit_fails c = (if c = Commit then Some (DriverError ''commit failed'') else None)"

definition users_only :: Migrator where
  "users_only = \<lparr>DB = db_faults (\<lambda>c. None), MigrationsPath = [], dbAdapter = Postgres,
     migrations = [(1, users_migration)], Logger = StdLogger\<rparr>"

text \<open>
  A database that keeps the metadata table: the rows after the calls \<open>hist\<close>, where an
  insert or delete of the adapter \<open>a\<close> counts once its transaction is committed. A
  lookup by id finds its row or answers \<open>ErrNoRows\<close>; any other call is answered by \<open>f\<close>.
\<close>

fun table_after :: "Migratable \<Rightarrow> call list \<Rightarrow> uint64 list \<Rightarrow> uint64 list option \<Rightarrow> uint64 list" where
  "table_after a [] rows pending = rows"
| "table_after a (Begin # cs) rows pending = table_after a cs rows (Some rows)"
| "table_after a (TxExec s [ArgID k] # cs) rows (Some p) =
     table_after a cs rows
       (Some (if s = MigrationLogInsertSql a then k # p
              else if s = MigrationLogDeleteSql a then removeAll k p else p))"
| "table_after a (Commit # cs) rows (Some p) = table_after a cs p None"
| "table_after a (Rollback # cs) rows pending = table_after a cs rows None"
| "table_after a (c # cs) rows pending = table_after a cs rows pending"

fun row_found :: "uint64 list \<Rightarrow> call \<Rightarrow> bool" where
  "row_found rows (QueryRow s [ArgID k]) = (k \<in> set rows)"
| "row_found rows c = True"

definition table_db :: "Migratable \<Rightarrow> (call \<Rightarrow> error option) \<Rightarrow> database" where
  "table_db a f hist c =
     (if row_found (table_after a hist [] None) c then Reply (f c) None
      else Reply (Some ErrNoRows) None)"

definition posts_fails :: "call \<Rightarrow> error option" where
  "posts_fails c = (if c = TxExec ''CREATE TABLE posts()'' [] then Some (DriverError ''syntax error'') else None)"

text \<open>
  An instance of the library parameters for plain ASCII text: white space is the six
  ASCII space bytes, a quoted literal is a text between two double quotes or two
  backquotes with no quote, backslash or line break inside (a literal with escape
  sequences, which \<^verbatim>\<open>strconv.Unquote\<close> would decode, is declined here), and every byte
  is a character of its own.
\<close>

definition ascii_space :: "char \<Rightarrow> bool" where
  "ascii_space c = (c \<in> set [CHR 0x09, CHR 0x0A, CHR 0x0B, CHR 0x0C, CHR 0x0D, CHR 0x20])"

definition trim_ascii :: "string \<Rightarrow> string" where
  "trim_ascii s = rev (dropWhile ascii_space (rev (dropWhile ascii_space s)))"

definition unquote_plain :: "string \<Rightarrow> string option" where
  "unquote_plain s =
     (if 2 \<le> length s \<and> hd s = last s \<and> hd s \<in> set [CHR 0x22, CHR 0x60]
         \<and> list_all (\<lambda>c. c \<noteq> hd s \<and> c \<noteq> CHR 0x5C \<and> c \<noteq> CHR 0x0A \<and> c \<noteq> CHR 0x0D
                          \<and> (of_char c :: nat) < 128) (butlast (tl s))
      then Some (butlast (tl s)) else None)"

definition ascii_lib :: stdlib where
  "ascii_lib = \<lparr>TrimSpace = trim_ascii, Unquote = unquote_plain, explode = map (\<lambda>c. [c])\<rparr>"

definition directive_example :: string where
  "directive_example = ''delimiter #\<newline>CREATE TABLE t(x int)#CREATE TABLE u(y int)#''"

text \<open>
  A filesystem given by its files, path and content; a pattern \<^verbatim>\<open>dir/*\<close> lists the
  paths that begin with \<^verbatim>\<open>dir/\<close>, in the order given (\<^verbatim>\<open>filepath.Glob\<close> sorts them).
\<close>

definition sample_fs :: "(string \<times> string) list \<Rightarrow> filesystem" where
  "sample_fs files =
     \<lparr>Glob = (\<lambda>pattern. Inr (filter (\<lambda>p. prefix (butlast pattern) p) (map fst files))),
      ReadFile = (\<lambda>p. case map_of files p of
                         Some text \<Rightarrow> Inr text
                       | None \<Rightarrow> Inl (IOError ''no such file''))\<rparr>"

definition paired_files :: "(string \<times> string) list" where
  "paired_files =
     [(''migrations/5_foo_down.sql'', ''DROP TABLE foo''),
      (''migrations/5_foo_up.sql'', ''CREATE TABLE foo()''),
      (''unpaired/5_foo_up.sql'', ''CREATE TABLE foo()''),
      (''unpaired/6_bar_down.sql'', ''DROP TABLE bar'')]"

definition misnamed_files :: "(string \<times> string) list" where
  "misnamed_files =
     [(''migrations/5_bar_down.sql'', ''DROP TABLE bar''),
      (''migrations/5_foo_up.sql'', ''CREATE TABLE foo()'')]"

section \<open>Properties of the Migrator\<close>

subsection \<open>Creating the metadata table\<close>




subsection \<open>Applying one migration\<close>

lemma calls_logw [simp]: "calls (logw l w) = calls w"
  by (simp add: logw_def)

lemma fsops_logw [simp]: "fsops (logw l w) = fsops w"
  by (simp add: logw_def)

lemma db_call_eq: "db_call m c w = (r, w') \<longleftrightarrow> r = DB m (calls w) c \<and> w' = w\<lparr>calls := calls w @ [c]\<rparr>"
  by (auto simp: db_call_def)

lemma rollback_after_fst: "fst (rollback_after m e w) = Some (reported m (calls w) e)"
  by (simp add: rollback_after_def db_call_def reported_def split: option.split)

lemma rollback_after_calls: "calls (snd (rollback_after m e w)) = calls w @ [Rollback]"
  by (simp add: rollback_after_def db_call_def split: option.split)

lemma rollback_after_eq:
  assumes "rollback_after m e w = (r, w')"
  shows "calls w' = calls w @ [Rollback] \<and> r = Some (reported m (calls w) e)"
  using rollback_after_fst [of m e w] rollback_after_calls [of m e w] assms by simp

lemma exec_commands_trace:
  "exec_commands m cmds w = (r, w') \<Longrightarrow>
     (r = None \<and> calls w' = calls w @ map (\<lambda>c. TxExec c []) cmds
        \<and> oks m (calls w) (map (\<lambda>c. TxExec c []) cmds)) \<or>
     (\<exists>pre c e0. oks m (calls w) (map (\<lambda>c. TxExec c []) pre)
         \<and> calls w' = calls w @ map (\<lambda>c. TxExec c []) pre @ [TxExec c [], Rollback]
         \<and> exec_failure (DB m (calls w @ map (\<lambda>c. TxExec c []) pre) (TxExec c [])) = Some e0
         \<and> r = Some (reported m (calls w @ map (\<lambda>c. TxExec c []) pre @ [TxExec c []]) e0))"
proof (induction cmds arbitrary: w)
  case Nil
  then show ?case by simp
next
  case (Cons cmd cmds)
  let ?T = "\<lambda>c. TxExec c []"
  let ?r = "DB m (calls w) (TxExec cmd [])"
  let ?w1 = "w\<lparr>calls := calls w @ [TxExec cmd []]\<rparr>"
  consider (fail) e where "exec_failure ?r = Some e" | (ok) "exec_failure ?r = None"
    by (cases "exec_failure ?r") auto
  then show ?case
  proof cases
    case fail
    then obtain wl where "rollback_after m e (logw wl ?w1) = (r, w')"
      using Cons.prems
      by (auto simp: db_call_def exec_failure_def split: option.splits sum.splits)
    from rollback_after_eq [OF this] fail
    have "oks m (calls w) (map ?T []) \<and> calls w' = calls w @ map ?T [] @ [TxExec cmd [], Rollback]
        \<and> exec_failure (DB m (calls w @ map ?T []) (TxExec cmd [])) = Some e
        \<and> r = Some (reported m (calls w @ map ?T [] @ [TxExec cmd []]) e)"
      by simp
    then show ?thesis by blast
  next
    case ok
    then obtain w1 where w1: "exec_commands m cmds w1 = (r, w')" "calls w1 = calls w @ [TxExec cmd []]"
      using Cons.prems
      by (auto simp: db_call_def exec_failure_def split: option.splits sum.splits)
    from Cons.IH [OF w1(1)] show ?thesis
    proof
      assume "r = None \<and> calls w' = calls w1 @ map ?T cmds \<and> oks m (calls w1) (map ?T cmds)"
      then show ?thesis using w1(2) ok by simp
    next
      assume "\<exists>pre c e0. oks m (calls w1) (map ?T pre)
         \<and> calls w' = calls w1 @ map ?T pre @ [TxExec c [], Rollback]
         \<and> exec_failure (DB m (calls w1 @ map ?T pre) (TxExec c [])) = Some e0
         \<and> r = Some (reported m (calls w1 @ map ?T pre @ [TxExec c []]) e0)"
      then obtain pre c e0 where h: "oks m (calls w1) (map ?T pre)"
         "calls w' = calls w1 @ map ?T pre @ [TxExec c [], Rollback]"
         "exec_failure (DB m (calls w1 @ map ?T pre) (TxExec c [])) = Some e0"
         "r = Some (reported m (calls w1 @ map ?T pre @ [TxExec c []]) e0)" by blast
      have "oks m (calls w) (map ?T (cmd # pre))
         \<and> calls w' = calls w @ map ?T (cmd # pre) @ [TxExec c [], Rollback]
         \<and> exec_failure (DB m (calls w @ map ?T (cmd # pre)) (TxExec c [])) = Some e0
         \<and> r = Some (reported m (calls w @ map ?T (cmd # pre) @ [TxExec c []]) e0)"
        using h w1(2) ok by simp
      then show ?thesis by blast
    qed
  qed
qed

lemma upMigration_neq_downMigration [simp]: "upMigration \<noteq> downMigration"
  by (simp add: upMigration_def downMigration_def)

lemma downMigration_neq_upMigration [simp]: "downMigration \<noteq> upMigration"
  by (simp add: upMigration_def downMigration_def)

lemma log_and_commit_fail:
  assumes "err (DB m (calls w) (bookkeeping m x mType)) = Some e"
  shows "fst (log_and_commit m x mType w) = Some (reported m (calls w @ [bookkeeping m x mType]) e)"
    and "fst (snd (log_and_commit m x mType w)) = x"
    and "calls (snd (snd (log_and_commit m x mType w))) = calls w @ [bookkeeping m x mType, Rollback]"
  using assms
  by (cases "mType = upMigration";
      simp add: log_and_commit_def bookkeeping_def db_call_def rollback_after_def reported_def
        split: option.split)+

lemma log_and_commit_ok:
  assumes "err (DB m (calls w) (bookkeeping m x mType)) = None"
  shows "fst (log_and_commit m x mType w) = err (DB m (calls w @ [bookkeeping m x mType]) Commit)"
    and "fst (snd (log_and_commit m x mType w)) =
           (if err (DB m (calls w @ [bookkeeping m x mType]) Commit) = None
            then x\<lparr>Status := (if mType = upMigration then Active else Inactive)\<rparr> else x)"
    and "calls (snd (snd (log_and_commit m x mType w))) = calls w @ [bookkeeping m x mType, Commit]"
  using assms
  by (cases "mType = upMigration";
      simp add: log_and_commit_def bookkeeping_def db_call_def split: option.split)+

lemma bookkeeping_TxExec: "\<exists>s a. bookkeeping m x mType = TxExec s a"
  by (simp add: bookkeeping_def)


lemma calls_begun [simp]: "calls (begun w) = calls w @ [Begin]"
  by (simp add: begun_def)

lemma ApplyMigration_invalid:
  "select_script x t = None \<Longrightarrow>
     ApplyMigration m x t w = (Some InvalidMigrationType, x, logw (Printf ''Applying migration: %s'') w)"
  by (simp add: ApplyMigration_def)

lemma ApplyMigration_begin_fails:
  "select_script x t = Some sql \<Longrightarrow> err (DB m (calls w) Begin) = Some e \<Longrightarrow>
     ApplyMigration m x t w = (Some e, x, logw (Printf ''Error opening transaction: %v'') (begun w))"
  by (simp add: ApplyMigration_def db_call_def begun_def)

lemma ApplyMigration_tx:
  "select_script x t = Some sql \<Longrightarrow> err (DB m (calls w) Begin) = None \<Longrightarrow>
     ApplyMigration m x t w =
       (case exec_commands m (GetMigrationCommands (dbAdapter m) sql) (begun w) of
          (Some e, w2) \<Rightarrow> (Some e, x, w2)
        | (None, w2) \<Rightarrow> log_and_commit m x t w2)"
  by (simp add: ApplyMigration_def db_call_def begun_def split: prod.split option.split)

lemma ApplyMigration_shape:
  assumes sel: "select_script x mType = Some sql"
      and beg: "err (DB m (calls w) Begin) = None"
      and res: "ApplyMigration m x mType w = (r, x', w')"
  shows "\<exists>cmds. oks m (calls w @ [Begin]) (map (\<lambda>c. TxExec c []) cmds) \<and>
     ((\<exists>s a e0. calls w' = calls w @ Begin # map (\<lambda>c. TxExec c []) cmds @ [TxExec s a, Rollback]
          \<and> (a = [] \<or> TxExec s a = bookkeeping m x mType)
          \<and> exec_failure (DB m (calls w @ Begin # map (\<lambda>c. TxExec c []) cmds) (TxExec s a)) = Some e0
          \<and> r = Some (reported m (calls w @ Begin # map (\<lambda>c. TxExec c []) cmds @ [TxExec s a]) e0)
          \<and> x' = x)
    \<or> (calls w' = calls w @ Begin # map (\<lambda>c. TxExec c []) cmds @ [bookkeeping m x mType, Commit]
          \<and> err (DB m (calls w @ Begin # map (\<lambda>c. TxExec c []) cmds) (bookkeeping m x mType)) = None
          \<and> r = err (DB m (calls w @ Begin # map (\<lambda>c. TxExec c []) cmds @ [bookkeeping m x mType]) Commit)
          \<and> x' = (if r = None
                  then x\<lparr>Status := (if mType = upMigration then Active else Inactive)\<rparr>
                  else x)))"
proof -
  let ?T = "\<lambda>c. TxExec c []"
  let ?cmds = "GetMigrationCommands (dbAdapter m) sql"
  let ?b = "bookkeeping m x mType"
  obtain r2 w2 where ex: "exec_commands m ?cmds (begun w) = (r2, w2)"
    by (cases "exec_commands m ?cmds (begun w)") auto
  from exec_commands_trace [OF ex] show ?thesis
  proof
    assume ok: "r2 = None \<and> calls w2 = calls (begun w) @ map ?T ?cmds
        \<and> oks m (calls (begun w)) (map ?T ?cmds)"
    have lc: "log_and_commit m x mType w2 = (r, x', w')"
      using ApplyMigration_tx [OF sel beg] res ex ok by simp
    have c2: "calls w2 = calls w @ Begin # map ?T ?cmds" using ok by simp
    have pre: "oks m (calls w @ [Begin]) (map ?T ?cmds)" using ok by simp
    show ?thesis
    proof (cases "err (DB m (calls w2) ?b)")
      case (Some e)
      obtain s a where sa: "?b = TxExec s a" using bookkeeping_TxExec by blast
      have "calls w' = calls w @ Begin # map ?T ?cmds @ [TxExec s a, Rollback]
          \<and> (a = [] \<or> TxExec s a = ?b)
          \<and> exec_failure (DB m (calls w @ Begin # map ?T ?cmds) (TxExec s a)) = Some e
          \<and> r = Some (reported m (calls w @ Begin # map ?T ?cmds @ [TxExec s a]) e) \<and> x' = x"
        using log_and_commit_fail [OF Some] lc c2 Some sa by (simp add: exec_failure_def)
      with pre show ?thesis by blast
    next
      case None
      have "calls w' = calls w @ Begin # map ?T ?cmds @ [?b, Commit]
          \<and> err (DB m (calls w @ Begin # map ?T ?cmds) ?b) = None
          \<and> r = err (DB m (calls w @ Begin # map ?T ?cmds @ [?b]) Commit)
          \<and> x' = (if r = None
                  then x\<lparr>Status := (if mType = upMigration then Active else Inactive)\<rparr>
                  else x)"
        using log_and_commit_ok [OF None] lc c2 None by simp
      with pre show ?thesis by blast
    qed
  next
    assume "\<exists>pre c e0. oks m (calls (begun w)) (map ?T pre)
         \<and> calls w2 = calls (begun w) @ map ?T pre @ [TxExec c [], Rollback]
         \<and> exec_failure (DB m (calls (begun w) @ map ?T pre) (TxExec c [])) = Some e0
         \<and> r2 = Some (reported m (calls (begun w) @ map ?T pre @ [TxExec c []]) e0)"
    then obtain pre c e0 where h: "oks m (calls (begun w)) (map ?T pre)"
         "calls w2 = calls (begun w) @ map ?T pre @ [TxExec c [], Rollback]"
         "exec_failure (DB m (calls (begun w) @ map ?T pre) (TxExec c [])) = Some e0"
         "r2 = Some (reported m (calls (begun w) @ map ?T pre @ [TxExec c []]) e0)" by blast
    have "r = r2 \<and> x' = x \<and> w' = w2"
      using ApplyMigration_tx [OF sel beg] res ex h(4) by simp
    then have "calls w' = calls w @ Begin # map ?T pre @ [TxExec c [], Rollback]
          \<and> ([] = ([]::arg list) \<or> TxExec c [] = ?b)
          \<and> exec_failure (DB m (calls w @ Begin # map ?T pre) (TxExec c [])) = Some e0
          \<and> r = Some (reported m (calls w @ Begin # map ?T pre @ [TxExec c []]) e0) \<and> x' = x"
      using h by simp
    moreover have "oks m (calls w @ [Begin]) (map ?T pre)" using h(1) by simp
    ultimately show ?thesis by blast
  qed
qed

lemma exec_commands_step_ok:
  assumes "exec_failure (DB m (calls w) (TxExec cmd [])) = None"
  shows "\<exists>w1. exec_commands m (cmd # cmds) w = exec_commands m cmds w1
            \<and> calls w1 = calls w @ [TxExec cmd []]"
  using assms
  by (auto simp: db_call_def exec_failure_def split: option.splits sum.splits)

lemma exec_commands_step_fail:
  assumes "exec_failure (DB m (calls w) (TxExec cmd [])) = Some e"
  shows "\<exists>w1. exec_commands m (cmd # cmds) w = rollback_after m e w1
            \<and> calls w1 = calls w @ [TxExec cmd []]"
  using assms
  by (auto simp: db_call_def exec_failure_def split: option.splits sum.splits)

lemma exec_commands_ok:
  "oks m (calls w) (map (\<lambda>c. TxExec c []) cmds) \<Longrightarrow>
     fst (exec_commands m cmds w) = None
     \<and> calls (snd (exec_commands m cmds w)) = calls w @ map (\<lambda>c. TxExec c []) cmds"
proof (induction cmds arbitrary: w)
  case Nil
  then show ?case by simp
next
  case (Cons cmd cmds)
  from Cons.prems have ok: "exec_failure (DB m (calls w) (TxExec cmd [])) = None"
    and rest: "oks m (calls w @ [TxExec cmd []]) (map (\<lambda>c. TxExec c []) cmds)" by simp_all
  from exec_commands_step_ok [OF ok] obtain w1
    where w1: "exec_commands m (cmd # cmds) w = exec_commands m cmds w1"
              "calls w1 = calls w @ [TxExec cmd []]" by blast
  from Cons.IH [of w1] rest w1 show ?case by simp
qed

lemma exec_commands_fail:
  "oks m (calls w) (map (\<lambda>c. TxExec c []) pre) \<Longrightarrow>
   exec_failure (DB m (calls w @ map (\<lambda>c. TxExec c []) pre) (TxExec c [])) = Some e0 \<Longrightarrow>
     fst (exec_commands m (pre @ c # post) w)
       = Some (reported m (calls w @ map (\<lambda>c. TxExec c []) pre @ [TxExec c []]) e0)
     \<and> calls (snd (exec_commands m (pre @ c # post) w))
       = calls w @ map (\<lambda>c. TxExec c []) pre @ [TxExec c [], Rollback]"
proof (induction pre arbitrary: w)
  case Nil
  from exec_commands_step_fail [of m w c e0 post] Nil obtain w1
    where w1: "exec_commands m (c # post) w = rollback_after m e0 w1"
              "calls w1 = calls w @ [TxExec c []]" by auto
  then show ?case by (simp add: rollback_after_fst rollback_after_calls)
next
  case (Cons cmd pre)
  from Cons.prems have ok: "exec_failure (DB m (calls w) (TxExec cmd [])) = None"
    and rest: "oks m (calls w @ [TxExec cmd []]) (map (\<lambda>c. TxExec c []) pre)" by simp_all
  from exec_commands_step_ok [OF ok] obtain w1
    where w1: "exec_commands m (cmd # (pre @ c # post)) w = exec_commands m (pre @ c # post) w1"
              "calls w1 = calls w @ [TxExec cmd []]" by blast
  from Cons.IH [of w1] rest w1 Cons.prems(2) show ?case by simp
qed

text \<open>
  C4. Once the transaction is open, with \<open>(r, x', w')\<close> what \<open>ApplyMigration\<close> returns
  (error, migration, world):
  \<^item> if a statement of the script fails (its \<^verbatim>\<open>Exec\<close> or the \<^verbatim>\<open>RowsAffected\<close> of its
    result) after the statements before it went through, the next and last call is the
    rollback and the error returned is the rollback's own when it fails, the
    statement's otherwise;
  \<^item> the same holds when the bookkeeping statement fails after the whole script;
  \<^item> if the commit fails, it is the last call and its error is returned;
  \<^item> whenever an error is returned the migration is unchanged, and the status differs
    afterwards only when the run ended in a commit that succeeded, the status then being
    \<open>Active\<close> for up and \<open>Inactive\<close> for down.
\<close>

theorem ApplyMigration_failure_handling:
  assumes sel: "select_script x mType = Some sql"
      and beg: "err (DB m (calls w) Begin) = None"
      and res: "ApplyMigration m x mType w = (r, x', w')"
  shows
    "(\<forall>pre c post e0.
        GetMigrationCommands (dbAdapter m) sql = pre @ c # post
        \<and> oks m (calls w @ [Begin]) (map (\<lambda>c. TxExec c []) pre)
        \<and> exec_failure (DB m (calls w @ Begin # map (\<lambda>c. TxExec c []) pre) (TxExec c [])) = Some e0
        \<longrightarrow> calls w' = calls w @ Begin # map (\<lambda>c. TxExec c []) pre @ [TxExec c [], Rollback]
          \<and> r = Some (case err (DB m (calls w @ Begin # map (\<lambda>c. TxExec c []) pre @ [TxExec c []]) Rollback) of
                        Some rollbackErr \<Rightarrow> rollbackErr | None \<Rightarrow> e0)
          \<and> x' = x)
   \<and> (\<forall>e0.
        oks m (calls w @ [Begin]) (script_calls m sql)
        \<and> err (DB m (calls w @ Begin # script_calls m sql) (bookkeeping m x mType)) = Some e0
        \<longrightarrow> calls w' = calls w @ Begin # script_calls m sql @ [bookkeeping m x mType, Rollback]
          \<and> r = Some (case err (DB m (calls w @ Begin # script_calls m sql @ [bookkeeping m x mType]) Rollback) of
                        Some rollbackErr \<Rightarrow> rollbackErr | None \<Rightarrow> e0)
          \<and> x' = x)
   \<and> (\<forall>e.
        oks m (calls w @ [Begin]) (script_calls m sql)
        \<and> err (DB m (calls w @ Begin # script_calls m sql) (bookkeeping m x mType)) = None
        \<and> err (DB m (calls w @ Begin # script_calls m sql @ [bookkeeping m x mType]) Commit) = Some e
        \<longrightarrow> calls w' = calls w @ Begin # script_calls m sql @ [bookkeeping m x mType, Commit]
          \<and> r = Some e \<and> x' = x)
   \<and> (r \<noteq> None \<longrightarrow> x' = x)
   \<and> (Status x' \<noteq> Status x \<longrightarrow>
        r = None \<and> x' = x\<lparr>Status := (if mType = upMigration then Active else Inactive)\<rparr>
        \<and> (\<exists>cs. calls w' = cs @ [Commit] \<and> err (DB m cs Commit) = None))"
proof -
  let ?cmds = "GetMigrationCommands (dbAdapter m) sql"
  let ?b = "bookkeeping m x mType"
  note tx = ApplyMigration_tx [OF sel beg, of ]
  have stmt: "calls w' = calls w @ Begin # map (\<lambda>c. TxExec c []) pre @ [TxExec c [], Rollback]
          \<and> r = Some (reported m (calls w @ Begin # map (\<lambda>c. TxExec c []) pre @ [TxExec c []]) e0)
          \<and> x' = x"
    if "?cmds = pre @ c # post" "oks m (calls w @ [Begin]) (map (\<lambda>c. TxExec c []) pre)"
       "exec_failure (DB m (calls w @ Begin # map (\<lambda>c. TxExec c []) pre) (TxExec c [])) = Some e0"
    for pre c post e0
  proof -
    have "fst (exec_commands m (pre @ c # post) (begun w))
       = Some (reported m (calls (begun w) @ map (\<lambda>c. TxExec c []) pre @ [TxExec c []]) e0)
     \<and> calls (snd (exec_commands m (pre @ c # post) (begun w)))
       = calls (begun w) @ map (\<lambda>c. TxExec c []) pre @ [TxExec c [], Rollback]"
      using that by (intro exec_commands_fail) simp_all
    then show ?thesis
      using tx res that(1)
      by (cases "exec_commands m (pre @ c # post) (begun w)") auto
  qed
  have all_ok: "fst (exec_commands m ?cmds (begun w)) = None
        \<and> calls (snd (exec_commands m ?cmds (begun w))) = calls w @ Begin # script_calls m sql"
    if "oks m (calls w @ [Begin]) (script_calls m sql)"
    using exec_commands_ok [of m "begun w" ?cmds] that by (simp add: script_calls_def)
  have lc: "log_and_commit m x mType (snd (exec_commands m ?cmds (begun w))) = (r, x', w')"
    if "oks m (calls w @ [Begin]) (script_calls m sql)"
    using all_ok [OF that] tx res
    by (cases "exec_commands m ?cmds (begun w)") auto
  have bk: "calls w' = calls w @ Begin # script_calls m sql @ [?b, Rollback]
          \<and> r = Some (reported m (calls w @ Begin # script_calls m sql @ [?b]) e0)
          \<and> x' = x"
    if "oks m (calls w @ [Begin]) (script_calls m sql)"
       "err (DB m (calls w @ Begin # script_calls m sql) ?b) = Some e0" for e0
    using log_and_commit_fail [of m "snd (exec_commands m ?cmds (begun w))" x mType e0]
      all_ok [OF that(1)] lc [OF that(1)] that(2) by simp
  have cm: "calls w' = calls w @ Begin # script_calls m sql @ [?b, Commit] \<and> r = Some e \<and> x' = x"
    if "oks m (calls w @ [Begin]) (script_calls m sql)"
       "err (DB m (calls w @ Begin # script_calls m sql) ?b) = None"
       "err (DB m (calls w @ Begin # script_calls m sql @ [?b]) Commit) = Some e" for e
    using log_and_commit_ok [of m "snd (exec_commands m ?cmds (begun w))" x mType]
      all_ok [OF that(1)] lc [OF that(1)] that(2,3) by simp
  from ApplyMigration_shape [OF sel beg res] obtain pre where
    shape: "(\<exists>s a e0. calls w' = calls w @ Begin # map (\<lambda>c. TxExec c []) pre @ [TxExec s a, Rollback]
          \<and> (a = [] \<or> TxExec s a = ?b)
          \<and> exec_failure (DB m (calls w @ Begin # map (\<lambda>c. TxExec c []) pre) (TxExec s a)) = Some e0
          \<and> r = Some (reported m (calls w @ Begin # map (\<lambda>c. TxExec c []) pre @ [TxExec s a]) e0)
          \<and> x' = x)
    \<or> (calls w' = calls w @ Begin # map (\<lambda>c. TxExec c []) pre @ [?b, Commit]
          \<and> err (DB m (calls w @ Begin # map (\<lambda>c. TxExec c []) pre) ?b) = None
          \<and> r = err (DB m (calls w @ Begin # map (\<lambda>c. TxExec c []) pre @ [?b]) Commit)
          \<and> x' = (if r = None
                  then x\<lparr>Status := (if mType = upMigration then Active else Inactive)\<rparr>
                  else x))" by blast
  have unchanged: "x' = x" if "r \<noteq> None"
    using shape that by auto
  have only_commit: "r = None \<and> x' = x\<lparr>Status := (if mType = upMigration then Active else Inactive)\<rparr>
        \<and> (\<exists>cs. calls w' = cs @ [Commit] \<and> err (DB m cs Commit) = None)"
    if "Status x' \<noteq> Status x"
  proof -
    from shape that have c: "calls w' = calls w @ Begin # map (\<lambda>c. TxExec c []) pre @ [?b, Commit]"
        and r: "r = err (DB m (calls w @ Begin # map (\<lambda>c. TxExec c []) pre @ [?b]) Commit)"
        and x: "x' = (if r = None
                  then x\<lparr>Status := (if mType = upMigration then Active else Inactive)\<rparr>
                  else x)" by auto
    from x that have rn: "r = None" by (auto split: if_splits)
    have "calls w' = (calls w @ Begin # map (\<lambda>c. TxExec c []) pre @ [?b]) @ [Commit]" using c by simp
    with r rn x show ?thesis by (metis (no_types, lifting))
  qed
  show ?thesis
  proof (intro conjI allI impI)
    fix pre c post e0
    assume "?cmds = pre @ c # post
        \<and> oks m (calls w @ [Begin]) (map (\<lambda>c. TxExec c []) pre)
        \<and> exec_failure (DB m (calls w @ Begin # map (\<lambda>c. TxExec c []) pre) (TxExec c [])) = Some e0"
    then have *: "calls w' = calls w @ Begin # map (\<lambda>c. TxExec c []) pre @ [TxExec c [], Rollback]
          \<and> r = Some (reported m (calls w @ Begin # map (\<lambda>c. TxExec c []) pre @ [TxExec c []]) e0)
          \<and> x' = x"
      using stmt by blast
    from * show "calls w' = calls w @ Begin # map (\<lambda>c. TxExec c []) pre @ [TxExec c [], Rollback]"
      by simp
    from * show "r = Some (case err (DB m (calls w @ Begin # map (\<lambda>c. TxExec c []) pre @ [TxExec c []]) Rollback) of
                        Some rollbackErr \<Rightarrow> rollbackErr | None \<Rightarrow> e0)"
      by (simp add: reported_def)
    from * show "x' = x" by simp
  next
    fix e0
    assume "oks m (calls w @ [Begin]) (script_calls m sql)
        \<and> err (DB m (calls w @ Begin # script_calls m sql) ?b) = Some e0"
    then have *: "calls w' = calls w @ Begin # script_calls m sql @ [?b, Rollback]
          \<and> r = Some (reported m (calls w @ Begin # script_calls m sql @ [?b]) e0)
          \<and> x' = x"
      using bk by blast
    from * show "calls w' = calls w @ Begin # script_calls m sql @ [?b, Rollback]" by simp
    from * show "r = Some (case err (DB m (calls w @ Begin # script_calls m sql @ [?b]) Rollback) of
                        Some rollbackErr \<Rightarrow> rollbackErr | None \<Rightarrow> e0)"
      by (simp add: reported_def)
    from * show "x' = x" by simp
  next
    fix e
    assume "oks m (calls w @ [Begin]) (script_calls m sql)
        \<and> err (DB m (calls w @ Begin # script_calls m sql) ?b) = None
        \<and> err (DB m (calls w @ Begin # script_calls m sql @ [?b]) Commit) = Some e"
    then have *: "calls w' = calls w @ Begin # script_calls m sql @ [?b, Commit] \<and> r = Some e \<and> x' = x"
      using cm by blast
    from * show "calls w' = calls w @ Begin # script_calls m sql @ [?b, Commit]" by simp
    from * show "r = Some e" by simp
    from * show "x' = x" by simp
  next
    assume "r \<noteq> None"
    then show "x' = x" by (rule unchanged)
  next
    assume a: "Status x' \<noteq> Status x"
    from only_commit [OF a] show "r = None" by simp
    from only_commit [OF a]
    show "x' = x\<lparr>Status := (if mType = upMigration then Active else Inactive)\<rparr>" by simp
    from only_commit [OF a]
    show "\<exists>cs. calls w' = cs @ [Commit] \<and> err (DB m cs Commit) = None" by simp
  qed
qed

theorem ApplyMigration_failure_handling_witness:
  "select_script users_migration upMigration = Some ''CREATE TABLE users()''
   \<and> ApplyMigration (sample_migrator (db_faults exec_and_rollback_fail) StdLogger)
         users_migration upMigration w0
       = (Some (DriverError ''connection lost''), users_migration,
          snd (snd (ApplyMigration (sample_migrator (db_faults exec_and_rollback_fail) StdLogger)
            users_migration upMigration w0)))
   \<and> calls (snd (snd (ApplyMigration (sample_migrator (db_faults exec_and_rollback_fail) StdLogger)
         users_migration upMigration w0))) = [Begin, TxExec ''CREATE TABLE users()'' [], Rollback]
   \<and> ApplyMigration (sample_migrator (db_faults bookkeeping_fails) StdLogger)
         users_migration upMigration w0
       = (Some (DriverError ''duplicate key''), users_migration,
          snd (snd (ApplyMigration (sample_migrator (db_faults bookkeeping_fails) StdLogger)
            users_migration upMigration w0)))
   \<and> calls (snd (snd (ApplyMigration (sample_migrator (db_faults bookkeeping_fails) StdLogger)
         users_migration upMigration w0)))
       = [Begin, TxExec ''CREATE TABLE users()'' [],
          TxExec (MigrationLogInsertSql Postgres) [ArgID 1], Rollback]
   \<and> ApplyMigration (sample_migrator (db_faults commit_fails) StdLogger)
         users_migration upMigration w0
       = (Some (DriverError ''commit failed''), users_migration,
          snd (snd (ApplyMigration (sample_migrator (db_faults commit_fails) StdLogger)
            users_migration upMigration w0)))
   \<and> calls (snd (snd (ApplyMigration (sample_migrator (db_faults commit_fails) StdLogger)
         users_migration upMigration w0)))
       = [Begin, TxExec ''CREATE TABLE users()'' [],
          TxExec (MigrationLogInsertSql Postgres) [ArgID 1], Commit]"
proof -
  let ?sql = "''CREATE TABLE users()''"
  let ?m1 = "sample_migrator (db_faults exec_and_rollback_fail) StdLogger"
  let ?m2 = "sample_migrator (db_faults bookkeeping_fails) StdLogger"
  let ?m3 = "sample_migrator (db_faults commit_fails) StdLogger"
  let ?run1 = "ApplyMigration ?m1 users_migration upMigration w0"
  let ?run2 = "ApplyMigration ?m2 users_migration upMigration w0"
  let ?run3 = "ApplyMigration ?m3 users_migration upMigration w0"
  note defs = sample_migrator_def Postgres_def db_faults_def exec_and_rollback_fail_def
    commit_fails_def exec_failure_def w0_def script_calls_def bookkeeping_def users_migration_def
  have sel: "select_script users_migration upMigration = Some ?sql"
    by (simp add: select_script_def users_migration_def)
  have beg: "err (DB ?m1 (calls w0) Begin) = None" "err (DB ?m2 (calls w0) Begin) = None"
    "err (DB ?m3 (calls w0) Begin) = None"
    by (simp_all add: defs)
  have res: "?run1 = (fst ?run1, fst (snd ?run1), snd (snd ?run1))"
    "?run2 = (fst ?run2, fst (snd ?run2), snd (snd ?run2))"
    "?run3 = (fst ?run3, fst (snd ?run3), snd (snd ?run3))" by simp_all
  have stmt_fails: "GetMigrationCommands (dbAdapter ?m1) ?sql = [] @ ?sql # []
        \<and> oks ?m1 (calls w0 @ [Begin]) (map (\<lambda>c. TxExec c []) [])
        \<and> exec_failure (DB ?m1 (calls w0 @ Begin # map (\<lambda>c. TxExec c []) []) (TxExec ?sql []))
            = Some (DriverError ''syntax error'')"
    by (simp add: defs)
  have bk_fails: "oks ?m2 (calls w0 @ [Begin]) (script_calls ?m2 ?sql)
        \<and> err (DB ?m2 (calls w0 @ Begin # script_calls ?m2 ?sql) (bookkeeping ?m2 users_migration upMigration))
            = Some (DriverError ''duplicate key'')"
    by (simp add: defs)
  have cm_fails: "oks ?m3 (calls w0 @ [Begin]) (script_calls ?m3 ?sql)
        \<and> err (DB ?m3 (calls w0 @ Begin # script_calls ?m3 ?sql) (bookkeeping ?m3 users_migration upMigration)) = None
        \<and> err (DB ?m3 (calls w0 @ Begin # script_calls ?m3 ?sql @ [bookkeeping ?m3 users_migration upMigration]) Commit)
            = Some (DriverError ''commit failed'')"
    by (simp add: defs)
  note t1 = ApplyMigration_failure_handling [OF sel beg(1) res(1), THEN conjunct1, rule_format, OF stmt_fails]
  note t2 = ApplyMigration_failure_handling [OF sel beg(2) res(2), THEN conjunct2, THEN conjunct1,
      rule_format, OF bk_fails]
  note t3 = ApplyMigration_failure_handling [OF sel beg(3) res(3), THEN conjunct2, THEN conjunct2,
      THEN conjunct1, rule_format, OF cm_fails]
  have r1: "fst ?run1 = Some (DriverError ''connection lost'')" "fst (snd ?run1) = users_migration"
    "calls (snd (snd ?run1)) = [Begin, TxExec ?sql [], Rollback]"
    using t1 by (simp_all add: defs)
  have r2: "fst ?run2 = Some (DriverError ''duplicate key'')" "fst (snd ?run2) = users_migration"
    "calls (snd (snd ?run2)) = [Begin, TxExec ?sql [], TxExec (MigrationLogInsertSql Postgres) [ArgID 1], Rollback]"
    using t2 by (simp_all add: defs)
  have r3: "fst ?run3 = Some (DriverError ''commit failed'')" "fst (snd ?run3) = users_migration"
    "calls (snd (snd ?run3)) = [Begin, TxExec ?sql [], TxExec (MigrationLogInsertSql Postgres) [ArgID 1], Commit]"
    using t3 by (simp_all add: defs)
  have p: "x = (a, b, snd (snd x))" if "fst x = a" "fst (snd x) = b" for x :: "error option \<times> Migration \<times> world" and a b
    using that by (metis prod.collapse)
  show ?thesis
    using sel p [OF r1(1,2)] r1(3) p [OF r2(1,2)] r2(3) p [OF r3(1,2)] r3(3) by (intro conjI)
qed

lemma ApplyMigration_opens:
  assumes sel: "select_script x mType = Some sql"
  shows "\<exists>rest. calls (snd (snd (ApplyMigration m x mType w))) = calls w @ Begin # rest"
proof (cases "err (DB m (calls w) Begin)")
  case (Some e)
  from ApplyMigration_begin_fails [OF sel Some] show ?thesis by simp
next
  case None
  let ?run = "ApplyMigration m x mType w"
  have res: "?run = (fst ?run, fst (snd ?run), snd (snd ?run))" by simp
  from ApplyMigration_shape [OF sel None res] show ?thesis by auto
qed

lemma select_script_None_iff:
  assumes "mType = upMigration \<or> mType = downMigration"
  shows "select_script x mType = None \<longleftrightarrow> script_of x mType = []"
  using assms by (elim disjE) (simp_all add: select_script_def script_of_def)

text \<open>
  C7. For the directions up and down, \<open>ApplyMigration\<close> returns \<open>InvalidMigrationType\<close>
  with no database call made exactly when the script of the requested direction is
  empty; then nothing but the first log line has happened. Otherwise the first call it
  makes is \<open>Begin\<close>.
\<close>

theorem ApplyMigration_invalid_type_iff:
  assumes dir: "mType = upMigration \<or> mType = downMigration"
  shows "((fst (ApplyMigration m x mType w) = Some InvalidMigrationType
            \<and> calls (snd (snd (ApplyMigration m x mType w))) = calls w)
          \<longleftrightarrow> script_of x mType = [])
       \<and> (script_of x mType = [] \<longrightarrow>
            ApplyMigration m x mType w
              = (Some InvalidMigrationType, x, logw (Printf ''Applying migration: %s'') w))
       \<and> (script_of x mType \<noteq> [] \<longrightarrow>
            (\<exists>rest. calls (snd (snd (ApplyMigration m x mType w))) = calls w @ Begin # rest))"
proof (cases "script_of x mType = []")
  case True
  then have "select_script x mType = None"
    using select_script_None_iff [OF dir] by simp
  from ApplyMigration_invalid [OF this] True show ?thesis by simp
next
  case False
  then obtain sql where sel: "select_script x mType = Some sql"
    using select_script_None_iff [OF dir, of x] by (cases "select_script x mType") auto
  from ApplyMigration_opens [OF sel, of m w] obtain rest
    where "calls (snd (snd (ApplyMigration m x mType w))) = calls w @ Begin # rest" by blast
  with False show ?thesis by auto
qed

theorem ApplyMigration_invalid_type_iff_witness:
  "(downMigration = upMigration \<or> downMigration = downMigration)
   \<and> script_of (users_migration\<lparr>Down := []\<rparr>) downMigration = []
   \<and> ApplyMigration (sample_migrator (db_faults (\<lambda>c. None)) StdLogger)
        (users_migration\<lparr>Down := []\<rparr>) downMigration w0
       = (Some InvalidMigrationType, users_migration\<lparr>Down := []\<rparr>,
          logw (Printf ''Applying migration: %s'') w0)
   \<and> script_of users_migration downMigration \<noteq> []
   \<and> (\<exists>rest. calls (snd (snd (ApplyMigration (sample_migrator (db_faults (\<lambda>c. None)) StdLogger)
                  users_migration downMigration w0))) = calls w0 @ Begin # rest)"
proof -
  have dir: "downMigration = upMigration \<or> downMigration = downMigration" by simp
  have e: "script_of (users_migration\<lparr>Down := []\<rparr>) downMigration = []"
    by (simp add: script_of_def)
  have ne: "script_of users_migration downMigration \<noteq> []"
    by (simp add: script_of_def users_migration_def)
  from ApplyMigration_invalid_type_iff [OF dir, THEN conjunct2, THEN conjunct1, rule_format, OF e]
       ApplyMigration_invalid_type_iff [OF dir, THEN conjunct2, THEN conjunct2, rule_format, OF ne]
       dir e ne
  show ?thesis by blast
qed

subsection \<open>The loops over the migrations\<close>

lemma bookkept_append: "bookkept (a @ b) = bookkept a @ bookkept b"
  by (induction a rule: bookkept.induct) simp_all

lemma bookkept_script [simp]: "bookkept (map (\<lambda>c. TxExec c []) cs) = []"
  by (induction cs) simp_all


lemma bookkept_failed:
  "a = [] \<or> TxExec s a = bookkeeping m x mType \<Longrightarrow>
     bookkept [TxExec s a] = [] \<or> bookkept [TxExec s a] = bookkept [bookkeeping m x mType]"
  by auto

lemma bookkept_tail:
  "bookkept (map (\<lambda>c. TxExec c []) cmds @ [c, d]) = bookkept [c] @ bookkept [d]"
proof -
  have "map (\<lambda>c. TxExec c []) cmds @ [c, d] = map (\<lambda>c. TxExec c []) cmds @ [c] @ [d]"
    by simp
  then show ?thesis by (simp only: bookkept_append bookkept_script) simp
qed

text \<open>What one application adds to the calls, and what it does to the migration.\<close>

lemma ApplyMigration_effect:
  assumes res: "ApplyMigration m x mType w = (r, x', w')"
  shows "\<exists>new. calls w' = calls w @ new
       \<and> (bookkept new = [] \<or> bookkept new = bookkept [bookkeeping m x mType])
       \<and> (r = None \<longrightarrow> bookkept new = bookkept [bookkeeping m x mType]
              \<and> x' = x\<lparr>Status := (if mType = upMigration then Active else Inactive)\<rparr>)
       \<and> (r \<noteq> None \<longrightarrow> x' = x)"
proof (cases "select_script x mType")
  case None
  from ApplyMigration_invalid [OF None, of m w] res
  have "calls w' = calls w @ [] \<and> bookkept [] = [] \<and> r \<noteq> None \<and> x' = x" by auto
  then show ?thesis by blast
next
  case (Some sql)
  show ?thesis
  proof (cases "err (DB m (calls w) Begin)")
    case (Some e)
    from ApplyMigration_begin_fails [OF \<open>select_script x mType = Some sql\<close> Some] res
    have "calls w' = calls w @ [Begin] \<and> bookkept [Begin] = [] \<and> r \<noteq> None \<and> x' = x" by auto
    then show ?thesis by blast
  next
    case None
    let ?T = "\<lambda>c. TxExec c []"
    let ?b = "bookkeeping m x mType"
    from ApplyMigration_shape [OF \<open>select_script x mType = Some sql\<close> None res]
    obtain cmds where
      shape: "(\<exists>s a e0. calls w' = calls w @ Begin # map ?T cmds @ [TxExec s a, Rollback]
          \<and> (a = [] \<or> TxExec s a = ?b)
          \<and> exec_failure (DB m (calls w @ Begin # map ?T cmds) (TxExec s a)) = Some e0
          \<and> r = Some (reported m (calls w @ Begin # map ?T cmds @ [TxExec s a]) e0)
          \<and> x' = x)
        \<or> (calls w' = calls w @ Begin # map ?T cmds @ [?b, Commit]
          \<and> err (DB m (calls w @ Begin # map ?T cmds) ?b) = None
          \<and> r = err (DB m (calls w @ Begin # map ?T cmds @ [?b]) Commit)
          \<and> x' = (if r = None
                  then x\<lparr>Status := (if mType = upMigration then Active else Inactive)\<rparr>
                  else x))" by blast
    then show ?thesis
    proof
      assume "\<exists>s a e0. calls w' = calls w @ Begin # map ?T cmds @ [TxExec s a, Rollback]
          \<and> (a = [] \<or> TxExec s a = ?b)
          \<and> exec_failure (DB m (calls w @ Begin # map ?T cmds) (TxExec s a)) = Some e0
          \<and> r = Some (reported m (calls w @ Begin # map ?T cmds @ [TxExec s a]) e0)
          \<and> x' = x"
      then obtain s a e0 where h: "calls w' = calls w @ Begin # map ?T cmds @ [TxExec s a, Rollback]"
          "a = [] \<or> TxExec s a = ?b" "r \<noteq> None" "x' = x" by blast
      let ?new = "Begin # map ?T cmds @ [TxExec s a, Rollback]"
      have "bookkept ?new = bookkept [TxExec s a]"
        by (simp add: bookkept_tail)
      with bookkept_failed [OF h(2)] h
      have "calls w' = calls w @ ?new \<and> (bookkept ?new = [] \<or> bookkept ?new = bookkept [?b])
            \<and> r \<noteq> None \<and> x' = x" by simp
      then show ?thesis by blast
    next
      assume h: "calls w' = calls w @ Begin # map ?T cmds @ [?b, Commit]
          \<and> err (DB m (calls w @ Begin # map ?T cmds) ?b) = None
          \<and> r = err (DB m (calls w @ Begin # map ?T cmds @ [?b]) Commit)
          \<and> x' = (if r = None
                  then x\<lparr>Status := (if mType = upMigration then Active else Inactive)\<rparr>
                  else x)"
      let ?new = "Begin # map ?T cmds @ [?b, Commit]"
      have "bookkept ?new = bookkept [?b]"
        by (simp add: bookkept_tail)
      with h have "calls w' = calls w @ ?new \<and> bookkept ?new = bookkept [?b]
          \<and> (r = None \<longrightarrow> x' = x\<lparr>Status := (if mType = upMigration then Active else Inactive)\<rparr>)
          \<and> (r \<noteq> None \<longrightarrow> x' = x)" by simp
      then show ?thesis by blast
    qed
  qed
qed

lemma store_fields [simp]:
  "DB (store k x m) = DB m"
  "dbAdapter (store k x m) = dbAdapter m"
  "Logger (store k x m) = Logger m"
  "map_of (migrations (store k x m)) = (map_of (migrations m))(k \<mapsto> x)"
  by (simp_all add: store_def update_conv')

lemma store_keys:
  "map_of (migrations m) k = Some y \<Longrightarrow> map fst (migrations (store k x m)) = map fst (migrations m)"
  by (simp add: store_def update_keys map_of_eq_None_iff [symmetric] image_iff)
     (metis domI dom_map_of_conv_image_fst image_iff)

lemma status_of_store [simp]:
  "status_of (store k x m) k' = (if k' = k then Some (Status x) else status_of m k')"
  by (simp add: status_of_def)


lemma synced_refl: "synced m m"
  by (simp add: synced_def option.rel_refl)

lemma synced_trans:
  assumes "synced a b" "synced b c"
  shows "synced a c"
proof -
  have "rel_option (\<lambda>x x'. x' = x \<or> x' = x\<lparr>Status := Active\<rparr>)
          (map_of (migrations a) k) (map_of (migrations c) k)" for k
  proof -
    from assms have ab: "rel_option (\<lambda>x x'. x' = x \<or> x' = x\<lparr>Status := Active\<rparr>)
          (map_of (migrations a) k) (map_of (migrations b) k)"
      and bc: "rel_option (\<lambda>x x'. x' = x \<or> x' = x\<lparr>Status := Active\<rparr>)
          (map_of (migrations b) k) (map_of (migrations c) k)"
      by (simp_all add: synced_def)
    then show ?thesis
      by (cases "map_of (migrations a) k"; cases "map_of (migrations b) k";
          cases "map_of (migrations c) k") auto
  qed
  with assms show ?thesis by (simp add: synced_def)
qed

lemma synced_store:
  assumes "map_of (migrations m) k = Some x"
  shows "synced m (store k (x\<lparr>Status := Active\<rparr>) m)"
  using assms store_keys [OF assms]
  by (simp add: synced_def option.rel_refl)

lemma filter_is_tx_append: "filter is_tx (a @ b) = [] \<longleftrightarrow> filter is_tx a = [] \<and> filter is_tx b = []"
  by simp

lemma getMigrationStatuses_synced:
  "getMigrationStatuses ks m w = (r, m', w') \<Longrightarrow>
     synced m m' \<and> (\<exists>new. calls w' = calls w @ new \<and> filter is_tx new = [])"
proof (induction ks arbitrary: m w)
  case Nil
  then have "m' = m \<and> calls w' = calls w @ [] \<and> filter is_tx [] = []" by simp
  then show ?case using synced_refl by blast
next
  case (Cons k ks)
  show ?case
  proof (cases "map_of (migrations m) k")
    case None
    with Cons.prems have "getMigrationStatuses ks m w = (r, m', w')" by simp
    from Cons.IH [OF this] show ?thesis .
  next
    case (Some x)
    let ?q = "QueryRow (GetMigrationSql (dbAdapter m)) [ArgID (ID x)]"
    let ?r = "DB m (calls w) ?q"
    let ?w1 = "w\<lparr>calls := calls w @ [?q]\<rparr>"
    consider (norows) "err ?r = Some ErrNoRows"
      | (fail) e where "err ?r = Some e" "e \<noteq> ErrNoRows"
      | (found) "err ?r = None"
      by (cases "err ?r") auto
    then show ?thesis
    proof cases
      case norows
      with Cons.prems Some have "getMigrationStatuses ks m ?w1 = (r, m', w')"
        by (simp add: db_call_def)
      from Cons.IH [OF this] obtain new where
        "synced m m'" "calls w' = calls w @ (?q # new)" "filter is_tx (?q # new) = []" by auto
      then show ?thesis by blast
    next
      case fail
      with Cons.prems Some have "m' = m" "calls w' = calls w @ [?q]" "filter is_tx [?q] = []"
        by (auto simp: db_call_def)
      then show ?thesis using synced_refl by blast
    next
      case found
      let ?m1 = "store k (x\<lparr>Status := Active\<rparr>) m"
      from found Cons.prems Some have "getMigrationStatuses ks ?m1 ?w1 = (r, m', w')"
        by (simp add: db_call_def)
      from Cons.IH [OF this] obtain new where
        "synced ?m1 m'" "calls w' = calls w @ (?q # new)" "filter is_tx (?q # new) = []" by auto
      with synced_trans [OF synced_store [OF Some]] show ?thesis by blast
    qed
  qed
qed

lemma MigrationTableExists_calls:
  "\<exists>new. calls (snd (MigrationTableExists m w)) = calls w @ new \<and> filter is_tx new = []"
proof -
  let ?q = "QueryRow (SelectMigrationTableSql (dbAdapter m)) [ArgString migrationTableName]"
  have "calls (snd (MigrationTableExists m w)) = calls w @ [?q]"
    by (simp add: MigrationTableExists_def db_call_def split: option.split)
  moreover have "filter is_tx [?q] = []" by simp
  ultimately show ?thesis by blast
qed

lemma CreateMigrationsTable_calls:
  "\<exists>new. calls (snd (CreateMigrationsTable m w)) = calls w @ new \<and> filter is_tx new = []"
proof -
  let ?q = "DBExec (CreateMigrationTableSql (dbAdapter m)) []"
  have "calls (snd (CreateMigrationsTable m w)) = calls w @ [?q]"
    by (simp add: CreateMigrationsTable_def db_call_def Let_def split: option.split)
  moreover have "filter is_tx [?q] = []" by simp
  ultimately show ?thesis by blast
qed

lemma Migrate_sync_synced:
  assumes "Migrate_sync ks m w = (r, m', w')"
  shows "synced m m' \<and> (\<exists>new. calls w' = calls w @ new \<and> filter is_tx new = [])"
proof -
  obtain t e w1 where te: "MigrationTableExists m w = ((t, e), w1)"
    by (cases "MigrationTableExists m w") auto
  from MigrationTableExists_calls [of m w] te obtain n1 where
    n1: "calls w1 = calls w @ n1" "filter is_tx n1 = []" by auto
  show ?thesis
  proof (cases e)
    case (Some er)
    with assms te have "m' = m" "w' = w1" by (simp_all add: Migrate_sync_def)
    with n1 synced_refl show ?thesis by blast
  next
    case None
    obtain c w2 where cw: "(if \<not> t then CreateMigrationsTable m w1 else (Returns None, w1)) = (c, w2)"
      by (cases "if \<not> t then CreateMigrationsTable m w1 else (Returns None, w1)") auto
    have "\<exists>n2. calls w2 = calls w1 @ n2 \<and> filter is_tx n2 = []"
    proof (cases t)
      case True
      with cw have "calls w2 = calls w1 @ [] \<and> filter is_tx [] = []" by simp
      then show ?thesis by blast
    next
      case False
      with cw CreateMigrationsTable_calls [of m w1] show ?thesis by simp
    qed
    then obtain n2 where n2: "calls w2 = calls w1 @ n2" "filter is_tx n2 = []" by blast
    have c12: "calls w2 = calls w @ (n1 @ n2)" "filter is_tx (n1 @ n2) = []"
      using n1 n2 by simp_all
    show ?thesis
    proof (cases "c = Returns None")
      case False
      with assms te None cw have "m' = m" "w' = w2"
        by (auto simp: Migrate_sync_def split: outcome.splits option.splits)
      with c12 synced_refl show ?thesis by blast
    next
      case True
      obtain s m1 w3 where g: "getMigrationStatuses ks m w2 = (s, m1, w3)"
        by (cases "getMigrationStatuses ks m w2") auto
      with assms te None cw True have "m' = m1" "w' = w3"
        by (auto simp: Migrate_sync_def)
      with getMigrationStatuses_synced [OF g] obtain n3 where
        "synced m m'" "calls w' = calls w2 @ n3" "filter is_tx n3 = []" by auto
      with c12 have "synced m m'" "calls w' = calls w @ (n1 @ n2 @ n3)"
         "filter is_tx (n1 @ n2 @ n3) = []" by simp_all
      then show ?thesis by blast
    qed
  qed
qed

lemmas eval_defs = w0_def db_call_def db_faults_def store_def users_migration_def posts_migration_def
  Postgres_def sample_migrator_def
     Migrations_def sorted_ids_def Active_def Inactive_def ApplyMigration_def select_script_def upMigration_def downMigration_def logw_def
      log_and_commit_def Migrate_def Migrate_sync_def MigrationTableExists_def CreateMigrationsTable_def migrationTableName_def
    table_db_def posts_fails_def rollback_after_def


lemma set_sorted_ids: "set (sorted_ids m) = dom (map_of (migrations m))"
  by (simp add: sorted_ids_def dom_map_of_conv_image_fst)

lemma set_Migrations:
  "set (Migrations m s) = {k. \<exists>x. map_of (migrations m) k = Some x \<and> (s = - 1 \<or> Status x = s)}"
  by (auto simp: Migrations_def set_sorted_ids split: option.splits)

lemma set_Migrations_Inactive:
  "set (Migrations m Inactive) = {k. status_of m k = Some Inactive}"
  by (auto simp: set_Migrations status_of_def Inactive_def)





lemma Migrate_loop_None:
  "Migrate_loop ks m w = (None, m', w') \<Longrightarrow>
     (\<forall>k\<in>set ks. map_of (migrations m) k \<noteq> None \<longrightarrow> status_of m' k = Some Active)
     \<and> (\<forall>k. k \<notin> set ks \<longrightarrow> map_of (migrations m') k = map_of (migrations m) k)
     \<and> (\<forall>k. map_of (migrations m') k = None \<longleftrightarrow> map_of (migrations m) k = None)"
proof (induction ks arbitrary: m w)
  case Nil
  then show ?case by simp
next
  case (Cons k ks)
  show ?case
  proof (cases "map_of (migrations m) k")
    case None
    with Cons.prems have "Migrate_loop ks m w = (None, m', w')" by simp
    from Cons.IH [OF this] None show ?thesis by auto
  next
    case (Some x)
    obtain e x' w1 where am: "ApplyMigration m x upMigration w = (e, x', w1)"
      by (cases "ApplyMigration m x upMigration w") auto
    with Cons.prems Some have e: "e = None"
      and loop: "Migrate_loop ks (store k x' m) w1 = (None, m', w')"
      by (auto split: option.splits)
    from ApplyMigration_effect [OF am] e have x': "x' = x\<lparr>Status := Active\<rparr>" by auto
    from Cons.IH [OF loop] have
      ih1: "\<forall>k'\<in>set ks. map_of (migrations (store k x' m)) k' \<noteq> None \<longrightarrow> status_of m' k' = Some Active"
      and ih2: "\<forall>k'. k' \<notin> set ks \<longrightarrow> map_of (migrations m') k' = map_of (migrations (store k x' m)) k'"
      and ih3: "\<forall>k'. map_of (migrations m') k' = None \<longleftrightarrow> map_of (migrations (store k x' m)) k' = None"
      by blast+
    have "status_of m' k = Some Active"
    proof (cases "k \<in> set ks")
      case True
      with ih1 show ?thesis by simp
    next
      case False
      with ih2 x' show ?thesis by (simp add: status_of_def)
    qed
    moreover have "\<forall>k'\<in>set ks. map_of (migrations m) k' \<noteq> None \<longrightarrow> status_of m' k' = Some Active"
      using ih1 by auto
    moreover have "\<forall>k'. k' \<notin> set (k # ks) \<longrightarrow> map_of (migrations m') k' = map_of (migrations m) k'"
      using ih2 by simp
    moreover have "\<forall>k'. map_of (migrations m') k' = None \<longleftrightarrow> map_of (migrations m) k' = None"
      using ih3 Some by auto
    ultimately show ?thesis by simp
  qed
qed

lemma synced_no_inactive:
  assumes "synced m m'" "\<forall>k. status_of m k \<noteq> Some Inactive"
  shows "\<forall>k. status_of m' k \<noteq> Some Inactive"
proof
  fix k
  from assms(1) have "rel_option (\<lambda>x x'. x' = x \<or> x' = x\<lparr>Status := Active\<rparr>)
          (map_of (migrations m) k) (map_of (migrations m') k)" by (simp add: synced_def)
  with assms(2) [rule_format, of k] show "status_of m' k \<noteq> Some Inactive"
    by (cases "map_of (migrations m) k"; cases "map_of (migrations m') k")
       (auto simp: status_of_def Active_def Inactive_def)
qed

lemma Migrate_success_no_inactive:
  assumes "Migrate ks m w = (Returns None, m1, w1)"
  shows "\<forall>k. status_of m1 k \<noteq> Some Inactive"
proof -
  obtain c ms ws where sy: "Migrate_sync ks m w = (c, ms, ws)"
    by (cases "Migrate_sync ks m w") auto
  with assms have c: "c = Returns None"
    by (auto simp: Migrate_def split: outcome.splits option.splits prod.splits)
  with assms sy have loop: "Migrate_loop (Migrations ms Inactive) ms ws = (None, m1, w1)"
    by (auto simp: Migrate_def split: prod.splits)
  from Migrate_loop_None [OF loop] have
    a: "\<forall>k\<in>set (Migrations ms Inactive). map_of (migrations ms) k \<noteq> None \<longrightarrow> status_of m1 k = Some Active"
    and b: "\<forall>k. k \<notin> set (Migrations ms Inactive) \<longrightarrow> map_of (migrations m1) k = map_of (migrations ms) k"
    by blast+
  show ?thesis
  proof
    fix k
    show "status_of m1 k \<noteq> Some Inactive"
    proof (cases "status_of ms k = Some Inactive")
      case True
      then have "k \<in> set (Migrations ms Inactive)" "map_of (migrations ms) k \<noteq> None"
        by (auto simp: set_Migrations_Inactive status_of_def)
      with a show ?thesis by (simp add: Active_def Inactive_def)
    next
      case False
      then have "k \<notin> set (Migrations ms Inactive)" by (simp add: set_Migrations_Inactive)
      with b False show ?thesis by (simp add: status_of_def)
    qed
  qed
qed

text \<open>
  C6. After a \<open>Migrate\<close> that returned \<^verbatim>\<open>nil\<close>, a second \<open>Migrate\<close> on the same Migrator,
  whatever it returns and whatever the database answers, makes no call on a transaction
  (no \<^verbatim>\<open>Begin\<close>, no statement of a script, no insert or delete of a metadata row, no
  commit or rollback); no migration is \<open>Inactive\<close> after it, and the Migrator differs from
  the one before at most by statuses set to \<open>Active\<close> in the synchronisation.
\<close>

theorem Migrate_twice_applies_nothing:
  assumes first: "Migrate ks1 m w = (Returns None, m1, w1)"
      and second: "Migrate ks2 m1 w1 = (r, m2, w2)"
  shows "(\<exists>new. calls w2 = calls w1 @ new \<and> filter is_tx new = [])
       \<and> Migrations m2 Inactive = [] \<and> synced m1 m2"
proof -
  obtain c ms ws where sy: "Migrate_sync ks2 m1 w1 = (c, ms, ws)"
    by (cases "Migrate_sync ks2 m1 w1") auto
  from Migrate_sync_synced [OF sy] have s: "synced m1 ms"
    and n: "\<exists>new. calls ws = calls w1 @ new \<and> filter is_tx new = []" by simp_all
  from synced_no_inactive [OF s Migrate_success_no_inactive [OF first]]
  have "set (Migrations ms Inactive) = {}" by (simp add: set_Migrations_Inactive)
  then have none: "Migrations ms Inactive = []" by simp
  have "m2 = ms \<and> w2 = ws"
    using second sy none by (auto simp: Migrate_def split: outcome.splits option.splits)
  with s n none show ?thesis by simp
qed

theorem Migrate_twice_applies_nothing_witness:
  "fst (Migrate [1, 2] (sample_migrator (table_db Postgres (\<lambda>c. None)) StdLogger) w0) = Returns None
   \<and> (\<exists>new. calls (snd (snd (Migrate [2, 1]
            (fst (snd (Migrate [1, 2] (sample_migrator (table_db Postgres (\<lambda>c. None)) StdLogger) w0)))
            (snd (snd (Migrate [1, 2] (sample_migrator (table_db Postgres (\<lambda>c. None)) StdLogger) w0))))))
          = calls (snd (snd (Migrate [1, 2] (sample_migrator (table_db Postgres (\<lambda>c. None)) StdLogger) w0))) @ new
        \<and> filter is_tx new = [])
   \<and> bookkept (calls (snd (snd (Migrate [1, 2] (sample_migrator (table_db Postgres (\<lambda>c. None)) StdLogger) w0))))
        = [(MigrationLogInsertSql Postgres, 1), (MigrationLogInsertSql Postgres, 2)]"
proof -
  let ?M = "sample_migrator (table_db Postgres (\<lambda>c. None)) StdLogger"
  let ?a = "Migrate [1, 2] ?M w0"
  let ?b = "Migrate [2, 1] (fst (snd ?a)) (snd (snd ?a))"
  have a1: "fst ?a = Returns None" by (simp add: eval_defs)
  have first: "?a = (Returns None, fst (snd ?a), snd (snd ?a))"
    using a1 by (metis prod.collapse)
  have second: "?b = (fst ?b, fst (snd ?b), snd (snd ?b))" by simp
  have bk: "bookkept (calls (snd (snd ?a)))
        = [(MigrationLogInsertSql Postgres, 1), (MigrationLogInsertSql Postgres, 2)]"
    by (simp add: eval_defs)
  from Migrate_twice_applies_nothing [OF first second]
  have "\<exists>new. calls (snd (snd ?b)) = calls (snd (snd ?a)) @ new \<and> filter is_tx new = []"
    by (rule conjunct1)
  with a1 bk show ?thesis by simp
qed

subsection \<open>The constructors\<close>

lemma add_migrations_wf:
  "wf_migrations al \<Longrightarrow> add_migrations ms al = Inr al' \<Longrightarrow> wf_migrations al'"
proof (induction ms arbitrary: al)
  case Nil
  then show ?case by simp
next
  case (Cons m ms)
  let ?m' = "m\<lparr>Status := Inactive\<rparr>"
  from Cons.prems(2) have new: "map_of al (ID ?m') = None"
    and rest: "add_migrations ms (AList.update (ID ?m') ?m' al) = Inr al'"
    by (auto simp: Let_def split: option.splits)
  have "wf_migrations (AList.update (ID ?m') ?m' al)"
    using Cons.prems(1) by (auto simp: wf_migrations_def distinct_update update_conv')
  from Cons.IH [OF this rest] show ?case .
qed

text \<open>A Migrator that \<open>NewMigratorWithMigrations\<close> returns has well-formed migrations.\<close>

lemma NewMigratorWithMigrations_wf:
  "NewMigratorWithMigrations db adapter ms = Inr m \<Longrightarrow> wf_migrations (migrations m)"
proof -
  assume a: "NewMigratorWithMigrations db adapter ms = Inr m"
  then obtain al where al: "add_migrations ms [] = Inr al" "migrations m = al"
    by (auto simp: NewMigratorWithMigrations_def split: sum.splits)
  have "wf_migrations []" by (simp add: wf_migrations_def)
  from add_migrations_wf [OF this al(1)] al(2) show ?thesis by simp
qed

subsection \<open>Rolling back more migrations than are active\<close>

text \<open>
  Below the whole list the loop cannot end well: with \<open>lastMigration < -1\<close> the index
  reaches \<open>-1\<close> before it reaches \<open>lastMigration\<close>.
\<close>

lemma RollbackN_loop_below:
  "lastMigration < - 1 \<Longrightarrow> - 1 \<le> i \<Longrightarrow>
     fst (RollbackN_loop migs lastMigration i m w) \<noteq> Returns None"
proof (induction "nat (i + 1)" arbitrary: i m w)
  case 0
  then have "i \<noteq> lastMigration" "i < 0" by simp_all
  then show ?case by (subst RollbackN_loop.simps) simp
next
  case (Suc n)
  then have i: "i \<noteq> lastMigration" "\<not> i < 0" "- 1 \<le> i - 1" "n = nat (i - 1 + 1)" by simp_all
  note ih = Suc.hyps(1) [OF i(4) Suc.prems(1) i(3)]
  show ?case
  proof (cases "int (length migs) \<le> i")
    case True
    with i show ?thesis by (subst RollbackN_loop.simps) simp
  next
    case False
    let ?k = "migs ! nat i"
    show ?thesis
    proof (cases "map_of (migrations m) ?k")
      case None
      with i False ih [of m w] show ?thesis by (subst RollbackN_loop.simps) simp
    next
      case (Some x)
      obtain e x' w1 where am: "ApplyMigration m x downMigration w = (e, x', w1)"
        by (cases "ApplyMigration m x downMigration w") auto
      show ?thesis
      proof (cases e)
        case None
        with Some am i False ih [of "store ?k x' m" w1]
        show ?thesis by (subst RollbackN_loop.simps) simp
      next
        case (Some er)
        with \<open>map_of (migrations m) ?k = Some x\<close> am i False
        show ?thesis by (subst RollbackN_loop.simps) simp
      qed
    qed
  qed
qed

lemma RollbackN_beyond_count_never_nil:
  assumes sync: "getMigrationStatuses ks m w = (None, m1, w1)"
      and some: "Migrations m1 Active \<noteq> []"
      and n: "int (length (Migrations m1 Active)) < n" "n < 2 ^ 63"
  shows "fst (RollbackN n ks m w) \<noteq> Returns None"
proof -
  let ?len = "int (length (Migrations m1 Active))"
  have "- (2 ^ 63) \<le> ?len - 1 - n" "?len - 1 - n < 2 ^ 63"
    using n some by simp_all
  then have "signed_take_bit 63 (?len - 1 - n) = ?len - 1 - n"
    by (simp add: signed_take_bit_int_eq_self)
  moreover have "?len - 1 - n < - 1" "- 1 \<le> ?len - 1" using n by simp_all
  ultimately show ?thesis
    using sync some RollbackN_loop_below [of "?len - 1 - n" "?len - 1" "Migrations m1 Active" m1 w1]
    by (simp add: RollbackN_def Let_def)
qed

text \<open>
  C1, at a failing input. One migration, recorded as applied, every database call
  succeeding, and \<open>RollbackN 2\<close>: the migration is rolled back (its transaction is
  committed and its status is \<open>Inactive\<close>), then the loop indexes the slice at \<open>-1\<close> and
  the call panics instead of returning \<^verbatim>\<open>nil\<close>.
\<close>

theorem RollbackN_beyond_active_panics:
  "Migrations (fst (snd (getMigrationStatuses [1] users_only w0))) Active = [1]
   \<and> fst (RollbackN 2 [1] users_only w0) = Panics
   \<and> status_of (fst (snd (RollbackN 2 [1] users_only w0))) 1 = Some Inactive
   \<and> calls (snd (snd (RollbackN 2 [1] users_only w0)))
       = [QueryRow (GetMigrationSql Postgres) [ArgID 1], Begin, TxExec ''DROP TABLE users'' [],
          TxExec (MigrationLogDeleteSql Postgres) [ArgID 1], Commit]"
proof -
  have run: "RollbackN 2 [1] users_only w0 =
     (Panics, store 1 (users_migration\<lparr>Status := Inactive\<rparr>) users_only,
      \<lparr>calls = [QueryRow (GetMigrationSql Postgres) [ArgID 1], Begin, TxExec ''DROP TABLE users'' [],
          TxExec (MigrationLogDeleteSql Postgres) [ArgID 1], Commit],
       fsops = [], loglines = [Printf ''Applying migration: %s'']\<rparr>)"
    apply (simp add: RollbackN_def users_only_def eval_defs)
    apply (subst RollbackN_loop.simps)
    apply (simp add: eval_defs)
    apply (subst RollbackN_loop.simps)
    apply simp
    done
  have sync: "Migrations (fst (snd (getMigrationStatuses [1] users_only w0))) Active = [1]"
    by (simp add: users_only_def eval_defs)
  have st: "status_of (store 1 (users_migration\<lparr>Status := Inactive\<rparr>) users_only) 1 = Some Inactive"
    by simp
  from sync st show ?thesis by (simp only: run fst_conv snd_conv world.simps)
qed

section \<open>Properties of the loader\<close>

lemma in_bounds_last_index: "in_bounds p (last_index p) = (p \<noteq> [])"
  by (cases p) (simp_all add: in_bounds_def last_index_def)

lemma normalize_path_Returns: "p \<noteq> [] \<Longrightarrow> \<exists>q. normalize_path p = Returns q"
  by (simp add: normalize_path_def in_bounds_last_index)

text \<open>
  C10. The path normalisation of \<open>MigrationsFromPath\<close> reads the last byte of the path
  before anything else: the index is in bounds exactly for a non-empty path, the call
  returns (a list or an error) exactly for a non-empty path, and on the empty path it
  panics with no log line written and no filesystem access made.
\<close>

theorem MigrationsFromPath_total_iff_nonempty:
  "in_bounds p (last_index p) = (p \<noteq> []) \<and>
   ((\<exists>r w'. MigrationsFromPath parse fs ks1 ks2 p w = (Returns r, w')) = (p \<noteq> [])) \<and>
   MigrationsFromPath parse fs ks1 ks2 [] w = (Panics, w)"
proof (intro conjI)
  show "in_bounds p (last_index p) = (p \<noteq> [])" by (rule in_bounds_last_index)
  show "MigrationsFromPath parse fs ks1 ks2 [] w = (Panics, w)"
    by (simp add: MigrationsFromPath_def normalize_path_def in_bounds_def last_index_def)
  show "(\<exists>r w'. MigrationsFromPath parse fs ks1 ks2 p w = (Returns r, w')) = (p \<noteq> [])"
  proof (cases "p = []")
    case True
    then show ?thesis
      by (simp add: MigrationsFromPath_def normalize_path_def in_bounds_def last_index_def)
  next
    case False
    then obtain q where q: "normalize_path p = Returns q"
      using normalize_path_Returns by blast
    show ?thesis using False
      by (auto simp: MigrationsFromPath_def q Let_def split: sum.splits prod.splits option.splits)
  qed
qed

lemmas parse_defs = parseMigrationPath_def parse_stem_def basename_def strip_suffix_def
  is_digit_def digits_value_def upMigration_def downMigration_def

lemma validate_all_valid:
  "(\<And>k x. map_of migs k = Some x \<Longrightarrow> Validate x = None) \<Longrightarrow> validate_all ks migs w = (None, w)"
  by (induction ks) (auto split: option.splits)

lemma load_two:
  assumes "parse a = Inr (ka, ta, na)" "parse b = Inr (kb, tb, nb)"
      and "ReadFile fs a = Inr ca" "ReadFile fs b = Inr cb"
  shows "fst (load_files parse fs [a, b] [] w) =
     Inr (let first = \<lparr>ID = ka, Name = na, Status = Inactive,
                        Up = (if ta = upMigration then ca else []),
                        Down = (if ta = upMigration then [] else ca), Source = a\<rparr>
          in if kb = ka
             then [(ka, first\<lparr>Source := a @ '' '' @ b,
                              Up := (if tb = upMigration then cb else Up first),
                              Down := (if tb = upMigration then Down first else cb)\<rparr>)]
             else [(ka, first),
                   (kb, \<lparr>ID = kb, Name = nb, Status = Inactive,
                         Up = (if tb = upMigration then cb else []),
                         Down = (if tb = upMigration then [] else cb), Source = b\<rparr>)])"
  using assms by (simp add: Let_def)

text \<open>
  C8. A directory whose glob yields the up and the down file of migration 5 named
  \<open>foo\<close>, in either order, loads as exactly one Migration: id 5, name \<open>foo\<close>, status
  \<open>Inactive\<close>, each script the content of its file, and as source the two paths in the
  order read, joined by one space. A directory with the up file of 5 and the down file
  of 6 named \<open>bar\<close> loads as two Migrations, each with the one script and the one path.
\<close>

theorem MigrationsFromPath_pairs:
  "(normalize_path dir = Returns p \<and> Glob fs (p @ ''*'') = Inr ms
      \<and> (ms = [pd, pu] \<or> ms = [pu, pd])
      \<and> parse pu = Inr (5, upMigration, ''foo'') \<and> parse pd = Inr (5, downMigration, ''foo'')
      \<and> ReadFile fs pu = Inr cu \<and> ReadFile fs pd = Inr cd
    \<longrightarrow> fst (MigrationsFromPath parse fs ks1 [5] dir w)
          = Returns (Inr [\<lparr>ID = 5, Name = ''foo'', Status = Inactive, Up = cu, Down = cd,
                           Source = hd ms @ '' '' @ last ms\<rparr>]))
   \<and> (normalize_path dir = Returns p \<and> Glob fs (p @ ''*'') = Inr ms
      \<and> (ms = [pb, pu] \<or> ms = [pu, pb]) \<and> (ks2 = [5, 6] \<or> ks2 = [6, 5])
      \<and> parse pu = Inr (5, upMigration, ''foo'') \<and> parse pb = Inr (6, downMigration, ''bar'')
      \<and> ReadFile fs pu = Inr cu \<and> ReadFile fs pb = Inr cb
    \<longrightarrow> fst (MigrationsFromPath parse fs ks1 ks2 dir w)
          = Returns (Inr (map (\<lambda>k. if k = 5
                then \<lparr>ID = 5, Name = ''foo'', Status = Inactive, Up = cu, Down = [], Source = pu\<rparr>
                else \<lparr>ID = 6, Name = ''bar'', Status = Inactive, Up = [], Down = cb, Source = pb\<rparr>)
              ks2)))"
proof (intro conjI impI)
  assume a: "normalize_path dir = Returns p \<and> Glob fs (p @ ''*'') = Inr ms
      \<and> (ms = [pd, pu] \<or> ms = [pu, pd])
      \<and> parse pu = Inr (5, upMigration, ''foo'') \<and> parse pd = Inr (5, downMigration, ''foo'')
      \<and> ReadFile fs pu = Inr cu \<and> ReadFile fs pd = Inr cd"
  let ?x = "\<lparr>ID = 5, Name = ''foo'', Status = Inactive, Up = cu, Down = cd,
              Source = hd ms @ '' '' @ last ms\<rparr>"
  let ?w = "(logw (Printf ''Migrations path: %s'') w)\<lparr>fsops := fsops w @ [GlobOp (p @ ''*'')]\<rparr>"
  obtain l w3 where l: "load_files parse fs ms [] ?w = (l, w3)"
    by (cases "load_files parse fs ms [] ?w") auto
  from a have "fst (load_files parse fs ms [] ?w) = Inr [(5, ?x)]"
    by (elim conjE disjE) (simp_all add: load_two)
  with l have l': "l = Inr [(5, ?x)]" by simp
  have v: "validate_all ks1 [(5, ?x)] w3 = (None, w3)"
    by (rule validate_all_valid) (auto simp: Validate_def split: if_splits)
  from a l l' v show "fst (MigrationsFromPath parse fs ks1 [5] dir w) = Returns (Inr [?x])"
    by (simp add: MigrationsFromPath_def)
next
  assume a: "normalize_path dir = Returns p \<and> Glob fs (p @ ''*'') = Inr ms
      \<and> (ms = [pb, pu] \<or> ms = [pu, pb]) \<and> (ks2 = [5, 6] \<or> ks2 = [6, 5])
      \<and> parse pu = Inr (5, upMigration, ''foo'') \<and> parse pb = Inr (6, downMigration, ''bar'')
      \<and> ReadFile fs pu = Inr cu \<and> ReadFile fs pb = Inr cb"
  let ?x5 = "\<lparr>ID = 5, Name = ''foo'', Status = Inactive, Up = cu, Down = [], Source = pu\<rparr>"
  let ?x6 = "\<lparr>ID = 6, Name = ''bar'', Status = Inactive, Up = [], Down = cb, Source = pb\<rparr>"
  let ?w = "(logw (Printf ''Migrations path: %s'') w)\<lparr>fsops := fsops w @ [GlobOp (p @ ''*'')]\<rparr>"
  obtain l w3 where l: "load_files parse fs ms [] ?w = (l, w3)"
    by (cases "load_files parse fs ms [] ?w") auto
  from a have "fst (load_files parse fs ms [] ?w) = Inr [(5, ?x5), (6, ?x6)]
      \<or> fst (load_files parse fs ms [] ?w) = Inr [(6, ?x6), (5, ?x5)]"
    by (elim conjE disjE) (simp_all add: load_two)
  with l obtain migs where migs: "l = Inr migs" "map_of migs = [5 \<mapsto> ?x5, 6 \<mapsto> ?x6]"
    by (auto simp: fun_eq_iff)
  have v: "validate_all ks1 migs w3 = (None, w3)"
    by (rule validate_all_valid) (auto simp: migs(2) Validate_def split: if_splits)
  have c: "collect_values ks2 migs = map (\<lambda>k. if k = 5 then ?x5 else ?x6) ks2"
    using a by (elim conjE disjE) (simp_all add: migs(2))
  from a l migs(1) v c
  show "fst (MigrationsFromPath parse fs ks1 ks2 dir w)
          = Returns (Inr (map (\<lambda>k. if k = 5 then ?x5 else ?x6) ks2))"
    by (simp add: MigrationsFromPath_def)
qed

lemmas fs_defs = sample_fs_def paired_files_def misnamed_files_def normalize_path_def
  in_bounds_def last_index_def

theorem MigrationsFromPath_pairs_witness:
  "fst (MigrationsFromPath parseMigrationPath (sample_fs paired_files) [5] [5] ''migrations'' w0)
     = Returns (Inr [\<lparr>ID = 5, Name = ''foo'', Status = Inactive, Up = ''CREATE TABLE foo()'',
                      Down = ''DROP TABLE foo'',
                      Source = ''migrations/5_foo_down.sql migrations/5_foo_up.sql''\<rparr>])
   \<and> fst (MigrationsFromPath parseMigrationPath (sample_fs paired_files) [6, 5] [5, 6] ''unpaired/'' w0)
     = Returns (Inr [\<lparr>ID = 5, Name = ''foo'', Status = Inactive, Up = ''CREATE TABLE foo()'',
                      Down = [], Source = ''unpaired/5_foo_up.sql''\<rparr>,
                     \<lparr>ID = 6, Name = ''bar'', Status = Inactive, Up = [],
                      Down = ''DROP TABLE bar'', Source = ''unpaired/6_bar_down.sql''\<rparr>])"
proof -
  have a: "normalize_path ''migrations'' = Returns ''migrations/''
      \<and> Glob (sample_fs paired_files) (''migrations/'' @ ''*'')
          = Inr [''migrations/5_foo_down.sql'', ''migrations/5_foo_up.sql'']
      \<and> ([''migrations/5_foo_down.sql'', ''migrations/5_foo_up.sql'']
            = [''migrations/5_foo_down.sql'', ''migrations/5_foo_up.sql'']
          \<or> [''migrations/5_foo_down.sql'', ''migrations/5_foo_up.sql'']
            = [''migrations/5_foo_up.sql'', ''migrations/5_foo_down.sql''])
      \<and> parseMigrationPath ''migrations/5_foo_up.sql'' = Inr (5, upMigration, ''foo'')
      \<and> parseMigrationPath ''migrations/5_foo_down.sql'' = Inr (5, downMigration, ''foo'')
      \<and> ReadFile (sample_fs paired_files) ''migrations/5_foo_up.sql'' = Inr ''CREATE TABLE foo()''
      \<and> ReadFile (sample_fs paired_files) ''migrations/5_foo_down.sql'' = Inr ''DROP TABLE foo''"
    by (simp add: fs_defs parse_defs)
  have b: "normalize_path ''unpaired/'' = Returns ''unpaired/''
      \<and> Glob (sample_fs paired_files) (''unpaired/'' @ ''*'')
          = Inr [''unpaired/5_foo_up.sql'', ''unpaired/6_bar_down.sql'']
      \<and> ([''unpaired/5_foo_up.sql'', ''unpaired/6_bar_down.sql'']
            = [''unpaired/6_bar_down.sql'', ''unpaired/5_foo_up.sql'']
          \<or> [''unpaired/5_foo_up.sql'', ''unpaired/6_bar_down.sql'']
            = [''unpaired/5_foo_up.sql'', ''unpaired/6_bar_down.sql''])
      \<and> ([5, 6] = [5, 6 :: uint64] \<or> [5, 6] = [6, 5 :: uint64])
      \<and> parseMigrationPath ''unpaired/5_foo_up.sql'' = Inr (5, upMigration, ''foo'')
      \<and> parseMigrationPath ''unpaired/6_bar_down.sql'' = Inr (6, downMigration, ''bar'')
      \<and> ReadFile (sample_fs paired_files) ''unpaired/5_foo_up.sql'' = Inr ''CREATE TABLE foo()''
      \<and> ReadFile (sample_fs paired_files) ''unpaired/6_bar_down.sql'' = Inr ''DROP TABLE bar''"
    by (simp add: fs_defs parse_defs)
  from MigrationsFromPath_pairs [THEN conjunct1, rule_format, OF a, of "[5]" w0]
       MigrationsFromPath_pairs [THEN conjunct2, rule_format, OF b, of "[6, 5]" w0]
  show ?thesis by simp
qed

text \<open>
  C9, at a failing input. The directory holds \<^verbatim>\<open>5_bar_down.sql\<close> and \<^verbatim>\<open>5_foo_up.sql\<close>: two
  files of the same id whose names differ. The loader returns no error but one Migration,
  named after the file read first, with the scripts of both files.
\<close>

theorem MigrationsFromPath_name_mismatch_accepted:
  "parseMigrationPath ''migrations/5_bar_down.sql'' = Inr (5, downMigration, ''bar'')
   \<and> parseMigrationPath ''migrations/5_foo_up.sql'' = Inr (5, upMigration, ''foo'')
   \<and> MigrationsFromPath parseMigrationPath (sample_fs misnamed_files) [5] [5] ''migrations'' w0
     = (Returns (Inr [\<lparr>ID = 5, Name = ''bar'', Status = Inactive, Up = ''CREATE TABLE foo()'',
                      Down = ''DROP TABLE bar'',
                      Source = ''migrations/5_bar_down.sql migrations/5_foo_up.sql''\<rparr>]),
        \<lparr>calls = [],
         fsops = [GlobOp ''migrations/*'', ReadFileOp ''migrations/5_bar_down.sql'',
                  ReadFileOp ''migrations/5_foo_up.sql''],
         loglines = [Printf ''Migrations path: %s'',
                     Printf ''Migration file found: %s\<newline>'',
                     Printf ''Migration file found: %s\<newline>'',
                     Printf ''Migrations file pairs found: %v\<newline>'']\<rparr>)"
  by (simp add: MigrationsFromPath_def fs_defs parse_defs w0_def logw_def Validate_def Inactive_def)

section \<open>Properties of the MySQL splitting\<close>

lemma Index_single:
  "Index s [c] = (if c \<in> set s then Some (length (takeWhile (\<lambda>x. x \<noteq> c) s)) else None)"
  by (induction s) auto

lemma SplitN2_single:
  "SplitN2 s [c] =
     (if c \<in> set s
      then [takeWhile (\<lambda>x. x \<noteq> c) s, drop (Suc (length (takeWhile (\<lambda>x. x \<noteq> c) s))) s]
      else [s])"
proof (cases s)
  case Nil
  then show ?thesis by (simp add: SplitN2_def)
next
  case (Cons x xs)
  then have "min 1 (length s) = Suc 0" by simp
  then show ?thesis
    by (simp add: SplitN2_def Index_single takeWhile_eq_take [symmetric])
qed

lemma prefix_first_line:
  assumes "CHR ''\<newline>'' \<notin> set p"
  shows "prefix p (first_line s) \<longleftrightarrow> prefix p s"
proof
  assume "prefix p (first_line s)"
  then show "prefix p s"
    unfolding first_line_def using takeWhile_is_prefix prefix_order.trans by blast
next
  assume "prefix p s"
  then obtain r where "s = p @ r" by (auto simp: prefix_def)
  with assms show "prefix p (first_line s)"
    by (simp add: first_line_def takeWhile_append)
qed

lemma first_line_append:
  assumes "CHR ''\<newline>'' \<notin> set p"
  shows "first_line (p @ r) = p @ first_line r"
  using assms by (simp add: first_line_def takeWhile_append)

lemma first_line_no_newline: "CHR ''\<newline>'' \<notin> set r \<Longrightarrow> first_line r = r"
  by (auto simp: first_line_def takeWhile_eq_all_conv)

lemma Mysql_GetMigrationCommands_refines: "Mysql_GetMigrationCommands lib sql = split_script lib sql"
proof (cases "prefix ''delimiter '' sql")
  case False
  then show ?thesis
    using prefix_first_line [of "''delimiter ''" sql]
    by (simp add: Mysql_GetMigrationCommands_def split_script_def HasPrefix_def)
next
  case True
  then obtain r where r: "sql = ''delimiter '' @ r" by (auto simp: prefix_def)
  have fl: "first_line sql = ''delimiter '' @ first_line r"
    unfolding r by (rule first_line_append) simp
  have pre: "prefix ''delimiter '' (first_line sql)" using fl by simp
  have d: "drop (length ''delimiter '') sql = r" using r by simp
  have d1: "drop (length ''delimiter '') (first_line sql) = first_line r" using fl by simp
  have af: "after_first_line sql = drop (Suc (length (first_line r))) r"
    using fl r by (simp add: after_first_line_def)
  have m: "Mysql_GetMigrationCommands lib sql =
      Split lib (if length (SplitN2 r ''\<newline>'') > 1 then SplitN2 r ''\<newline>'' ! 1 else [])
        (case Unquote lib (TrimSpace lib (hd (SplitN2 r ''\<newline>''))) of
           Some delimiterUnquoted \<Rightarrow> delimiterUnquoted
         | None \<Rightarrow> TrimSpace lib (hd (SplitN2 r ''\<newline>'')))"
    by (simp only: Mysql_GetMigrationCommands_def HasPrefix_def True if_True Let_def d)
  have sp: "split_script lib sql =
      Split lib (drop (Suc (length (first_line r))) r)
        (case Unquote lib (TrimSpace lib (first_line r)) of
           Some u \<Rightarrow> u | None \<Rightarrow> TrimSpace lib (first_line r))"
    using pre d1 af by (simp only: split_script_def directive_delimiter_def Let_def if_True)
  show ?thesis
  proof (cases "CHR ''\<newline>'' \<in> set r")
    case True
    then have "SplitN2 r ''\<newline>'' = [first_line r, drop (Suc (length (first_line r))) r]"
      by (simp add: SplitN2_single first_line_def)
    then show ?thesis by (simp add: m sp cong: option.case_cong)
  next
    case False
    then have "SplitN2 r ''\<newline>'' = [r]" by (simp add: SplitN2_single)
    moreover have "first_line r = r" using False by (rule first_line_no_newline)
    ultimately show ?thesis by (simp add: m sp cong: option.case_cong)
  qed
qed

lemma Index_Some:
  "Index s sep = Some m \<Longrightarrow> s = take m s @ sep @ drop (m + length sep) s"
proof (induction s arbitrary: m)
  case Nil
  then show ?case by (simp split: if_splits)
next
  case (Cons c s)
  show ?case
  proof (cases "prefix sep (c # s)")
    case True
    with Cons.prems have "m = 0" by simp
    with True show ?thesis by (auto simp: prefix_def)
  next
    case False
    with Cons.prems obtain m' where m': "Index s sep = Some m'" "m = Suc m'" by auto
    from Cons.IH [OF m'(1)] m'(2) show ?thesis by simp
  qed
qed

lemma Index_None: "Index s sep = None \<Longrightarrow> \<not> sublist sep s"
  by (induction s) (auto simp: sublist_Cons_right split: if_splits)

lemma Index_first:
  "sep \<noteq> [] \<Longrightarrow> Index s sep = Some m \<Longrightarrow> \<not> sublist sep (take m s)"
proof (induction s arbitrary: m)
  case Nil
  then show ?case by simp
next
  case (Cons c s)
  show ?case
  proof (cases "prefix sep (c # s)")
    case True
    with Cons.prems show ?thesis by simp
  next
    case False
    with Cons.prems obtain m' where m': "Index s sep = Some m'" "m = Suc m'" by auto
    have "\<not> prefix sep (c # take m' s)"
    proof
      assume "prefix sep (c # take m' s)"
      moreover have "prefix (c # take m' s) (c # s)" by (simp add: take_is_prefix)
      ultimately have "prefix sep (c # s)" by (rule prefix_order.trans)
      with False show False by simp
    qed
    with Cons.IH [OF Cons.prems(1) m'(1)] m'(2) show ?thesis
      by (simp add: sublist_Cons_right)
  qed
qed

lemma genSplit_nonempty [simp]: "genSplit k s sep \<noteq> []"
  by (cases k) (simp_all split: option.split)

lemma Join_Cons: "ps \<noteq> [] \<Longrightarrow> Join (p # ps) sep = p @ sep @ Join ps sep"
  by (cases ps) simp_all

lemma Join_genSplit: "Join (genSplit k s sep) sep = s"
proof (induction k arbitrary: s)
  case 0
  then show ?case by simp
next
  case (Suc k)
  show ?case
  proof (cases "Index s sep")
    case None
    then show ?thesis by simp
  next
    case (Some m)
    with Suc.IH [of "drop (m + length sep) s"] Index_Some [OF Some] show ?thesis
      by (simp add: Join_Cons)
  qed
qed

lemma genSplit_pieces:
  "sep \<noteq> [] \<Longrightarrow> length s \<le> k \<Longrightarrow> p \<in> set (genSplit k s sep) \<Longrightarrow> \<not> sublist sep p"
proof (induction k arbitrary: s)
  case 0
  then show ?case by simp
next
  case (Suc k)
  show ?case
  proof (cases "Index s sep")
    case None
    with Suc.prems Index_None [OF None] show ?thesis by simp
  next
    case (Some m)
    from Suc.prems(1) obtain a as where "sep = a # as" by (cases sep) auto
    with Suc.prems(2) have "length (drop (m + length sep) s) \<le> k" by simp
    with Suc.IH [OF Suc.prems(1), of "drop (m + length sep) s"] Suc.prems(3) Some
      Index_first [OF Suc.prems(1) Some]
    show ?thesis by auto
  qed
qed


lemma directive_example_split:
  assumes "TrimSpace lib ''#'' = ''#''" "Unquote lib ''#'' = None"
  shows "Mysql_GetMigrationCommands lib directive_example
           = [''CREATE TABLE t(x int)'', ''CREATE TABLE u(y int)'', []]"
  using assms
  by (simp add: Mysql_GetMigrationCommands_def directive_example_def HasPrefix_def SplitN2_def Split_def)

text \<open>
  C3. \<open>Mysql_GetMigrationCommands\<close> is the split of the specification: when the first
  line begins with \<^verbatim>\<open>delimiter \<close>, the rest of that line, trimmed and unquoted when it
  unquotes, is the delimiter and the text after the first line is split on it;
  otherwise the whole script is split on \<^verbatim>\<open>;\<close>. Splitting on a non-empty delimiter cuts
  at its occurrences: joining the pieces with the delimiter gives the text back, and no
  piece contains the delimiter. The script with first line \<^verbatim>\<open>delimiter #\<close> splits into
  the two statements and an empty last piece, none of them containing the directive.
\<close>

theorem Mysql_GetMigrationCommands_spec:
  "Mysql_GetMigrationCommands lib sql = split_script lib sql
   \<and> (d \<noteq> [] \<longrightarrow> Join (Split lib s d) d = s \<and> (\<forall>p\<in>set (Split lib s d). \<not> sublist d p))
   \<and> (TrimSpace lib ''#'' = ''#'' \<and> Unquote lib ''#'' = None \<longrightarrow>
        Mysql_GetMigrationCommands lib directive_example
          = [''CREATE TABLE t(x int)'', ''CREATE TABLE u(y int)'', []]
        \<and> filter (\<lambda>p. p \<noteq> []) (Mysql_GetMigrationCommands lib directive_example)
          = [''CREATE TABLE t(x int)'', ''CREATE TABLE u(y int)'']
        \<and> (\<forall>p\<in>set (Mysql_GetMigrationCommands lib directive_example). \<not> sublist ''delimiter'' p))"
proof (intro conjI impI ballI)
  show "Mysql_GetMigrationCommands lib sql = split_script lib sql"
    by (rule Mysql_GetMigrationCommands_refines)
next
  assume "d \<noteq> []"
  then show "Join (Split lib s d) d = s" by (simp add: Split_def Join_genSplit)
next
  fix p assume "d \<noteq> []" "p \<in> set (Split lib s d)"
  then show "\<not> sublist d p" using genSplit_pieces [of d s "length s" p] by (simp add: Split_def)
next
  assume a: "TrimSpace lib ''#'' = ''#'' \<and> Unquote lib ''#'' = None"
  then have r: "Mysql_GetMigrationCommands lib directive_example
           = [''CREATE TABLE t(x int)'', ''CREATE TABLE u(y int)'', []]"
    by (simp add: directive_example_split)
  show "Mysql_GetMigrationCommands lib directive_example
           = [''CREATE TABLE t(x int)'', ''CREATE TABLE u(y int)'', []]" by (rule r)
  show "filter (\<lambda>p. p \<noteq> []) (Mysql_GetMigrationCommands lib directive_example)
          = [''CREATE TABLE t(x int)'', ''CREATE TABLE u(y int)'']" by (simp add: r)
  fix p assume "p \<in> set (Mysql_GetMigrationCommands lib directive_example)"
  then show "\<not> sublist ''delimiter'' p" unfolding r by (auto simp: sublist_Cons_right)
qed

theorem Mysql_GetMigrationCommands_spec_witness:
  "'';'' \<noteq> []
   \<and> Join (Split ascii_lib ''SELECT 1;SELECT 2'' '';'') '';'' = ''SELECT 1;SELECT 2''
   \<and> Split ascii_lib ''SELECT 1;SELECT 2'' '';'' = [''SELECT 1'', ''SELECT 2'']
   \<and> TrimSpace ascii_lib ''#'' = ''#'' \<and> Unquote ascii_lib ''#'' = None
   \<and> Mysql_GetMigrationCommands ascii_lib directive_example
        = [''CREATE TABLE t(x int)'', ''CREATE TABLE u(y int)'', []]
   \<and> split_script ascii_lib directive_example
        = [''CREATE TABLE t(x int)'', ''CREATE TABLE u(y int)'', []]"
proof -
  have d: "'';'' \<noteq> []" by simp
  have t: "TrimSpace ascii_lib ''#'' = ''#'' \<and> Unquote ascii_lib ''#'' = None"
    by (simp add: ascii_lib_def trim_ascii_def ascii_space_def unquote_plain_def)
  note inst = Mysql_GetMigrationCommands_spec
    [where lib = ascii_lib and sql = directive_example and d = "'';''" and s = "''SELECT 1;SELECT 2''"]
  from inst have j: "Join (Split ascii_lib ''SELECT 1;SELECT 2'' '';'') '';'' = ''SELECT 1;SELECT 2''"
    using d by blast
  from inst t have e: "Mysql_GetMigrationCommands ascii_lib directive_example
        = [''CREATE TABLE t(x int)'', ''CREATE TABLE u(y int)'', []]" by blast
  from inst e have sp: "split_script ascii_lib directive_example
        = [''CREATE TABLE t(x int)'', ''CREATE TABLE u(y int)'', []]" by simp
  have "Split ascii_lib ''SELECT 1;SELECT 2'' '';'' = [''SELECT 1'', ''SELECT 2'']"
    by (simp add: Split_def)
  with d j t e sp show ?thesis by simp
qed

end
